theory Spec2Isabelle
  imports
    Complex_Main
    "HOL-Library.AList"
    "HOL-Library.Multiset"
    "HOL-Library.Sublist"
    "HOL-Library.Char_ord"
    "HOL-Library.List_Lexorder"
    "HOL-Library.Product_Lexorder"
begin

section \<open>Data model\<close>

text \<open>
  The two transformations of \<^verbatim>\<open>src/bin/helpers.py\<close>, \<^verbatim>\<open>melt_activity_data\<close> (the
  Reshaper) and \<^verbatim>\<open>bin_data\<close> (the Binner), work on pandas data frames. A frame is
  modelled by its column labels and its rows; a row is the association list from column
  label to cell, in column order, like the dictionaries \<^verbatim>\<open>new_row\<close> that the source
  builds. A label is present in a frame when it is in \<open>columns\<close>; a row that has no
  entry for a label reads as \<open>NaN\<close> there.

  A cell is a number (floats are taken as reals), a string, a timestamp (an integer
  count of nanoseconds since the epoch, as in \<^verbatim>\<open>datetime64[ns]\<close>, without the bounds of
  64 bits), or one of the three missing markers of pandas: \<open>NaN\<close>, \<open>NaT\<close> and Python's
  \<open>None\<close>.

  Both functions assign to columns of the frame they are given, so each returns the
  final state of its argument next to its result; the result is an exception or the new
  frame. The progress hook \<^verbatim>\<open>status_callback\<close> does not touch the tables and is left out.

  The library calls are modelled as pandas 2 (2.1 or later) performs them: a frequency
  string such as \<^verbatim>\<open>15min\<close>, \<^verbatim>\<open>1H\<close> or \<^verbatim>\<open>5D\<close> is a multiple of a fixed tick, flooring counts
  from the epoch, groups come in ascending key order without the rows whose key is
  missing, sorting by several columns is stable and puts missing values last, and a left
  join keeps the order of its left frame. Device identifiers are numbers or strings,
  numbers before strings. Strings are taken as ASCII.
\<close>

datatype cell = Num real | Str string | Ts int | NaN | NaT | PyNone

type_synonym row = "(string \<times> cell) list"

record frame =
  columns :: "string list"
  rows :: "row list"

datatype error = ValueError | KeyError | TypeError | OverflowError | OutOfBounds | MergeError

text \<open>\<^verbatim>\<open>config.py\<close>: the two column names and the aggregation table.\<close>

definition TIME_COLUMN :: string where
  "TIME_COLUMN = ''Time''"

definition DELINEATING_COL :: string where
  "DELINEATING_COL = ''Dataset''"

record cfg =
  cfg_name :: "string option"
  cfg_summarize :: "string option"
  cfg_columns :: "string list option"

type_synonym schedule = "(nat \<times> cfg) list"

definition SELECTED_COLUMNS :: schedule where
  "SELECTED_COLUMNS =
    [(1, \<lparr>cfg_name = Some ''Raw Score'', cfg_summarize = Some ''mean'',
          cfg_columns = Some [''Act'']\<rparr>),
     (2, \<lparr>cfg_name = Some ''Percent Score'', cfg_summarize = Some ''act_percent'',
          cfg_columns = Some [''Act'']\<rparr>),
     (3, \<lparr>cfg_name = Some ''Temperature'', cfg_summarize = Some ''mean'',
          cfg_columns = Some [''T'']\<rparr>),
     (4, \<lparr>cfg_name = Some ''Light'', cfg_summarize = Some ''mean'',
          cfg_columns = Some [''Light'']\<rparr>),
     (5, \<lparr>cfg_name = Some ''Battery Voltage'', cfg_summarize = Some ''mean'',
          cfg_columns = Some [''Vbat'']\<rparr>)]"

subsection \<open>Cells and columns\<close>

fun isna :: "cell \<Rightarrow> bool" where
  "isna NaN = True"
| "isna NaT = True"
| "isna PyNone = True"
| "isna _ = False"

definition get_cell :: "row \<Rightarrow> string \<Rightarrow> cell" where
  "get_cell r c = (case map_of r c of Some v \<Rightarrow> v | None \<Rightarrow> NaN)"

text \<open>\<^verbatim>\<open>df[c] = ...\<close>: the column is overwritten where it is, or added as the last one.\<close>

definition set_column :: "string \<Rightarrow> (row \<Rightarrow> cell) \<Rightarrow> frame \<Rightarrow> frame" where
  "set_column c f df =
     \<lparr>columns = (if c \<in> set (columns df) then columns df else columns df @ [c]),
      rows = map (\<lambda>r. AList.update c (f r) r) (rows df)\<rparr>"

text \<open>
  \<^verbatim>\<open>pd.to_datetime(..., errors="coerce", utc=True).dt.tz_convert(None)\<close> on one cell. A
  timestamp stays as it is and a missing value becomes \<open>NaT\<close>. How pandas reads any other
  value (a date string, a number) is the parameter \<open>p\<close>; what it cannot read is coerced
  to \<open>NaT\<close>.
\<close>

definition to_datetime :: "(cell \<Rightarrow> int option) \<Rightarrow> cell \<Rightarrow> cell" where
  "to_datetime p c =
     (case c of
        Ts t \<Rightarrow> Ts t
      | NaN \<Rightarrow> NaT
      | NaT \<Rightarrow> NaT
      | PyNone \<Rightarrow> NaT
      | _ \<Rightarrow> (case p c of Some t \<Rightarrow> Ts t | None \<Rightarrow> NaT))"

definition coerce_time :: "(cell \<Rightarrow> int option) \<Rightarrow> frame \<Rightarrow> frame" where
  "coerce_time p df = set_column TIME_COLUMN (\<lambda>r. to_datetime p (get_cell r TIME_COLUMN)) df"

text \<open>The order of group keys and of sorted columns: numbers, then timestamps, then
  strings, each kind in its own order, and missing values last.\<close>

definition cell_key :: "cell \<Rightarrow> nat \<times> real \<times> int \<times> string" where
  "cell_key c =
     (case c of
        Num x \<Rightarrow> (0, x, 0, [])
      | Ts t \<Rightarrow> (1, 0, t, [])
      | Str s \<Rightarrow> (2, 0, 0, s)
      | _ \<Rightarrow> (3, 0, 0, []))"

text \<open>Exceptions end a loop at the first iteration that raises.\<close>

fun traverse :: "('a \<Rightarrow> error + 'b) \<Rightarrow> 'a list \<Rightarrow> error + 'b list" where
  "traverse f [] = Inr []"
| "traverse f (x # xs) =
     (case f x of
        Inl e \<Rightarrow> Inl e
      | Inr y \<Rightarrow> (case traverse f xs of Inl e \<Rightarrow> Inl e | Inr ys \<Rightarrow> Inr (y # ys)))"

text \<open>The decimal form of a natural number, as an f-string prints it.\<close>

definition digit_char :: "nat \<Rightarrow> char" where
  "digit_char d = ''0123456789'' ! d"

fun show_nat :: "nat \<Rightarrow> string" where
  "show_nat n = (if n < 10 then [digit_char n] else show_nat (n div 10) @ [digit_char (n mod 10)])"

declare show_nat.simps [simp del]

section \<open>The Reshaper: \<^verbatim>\<open>melt_activity_data\<close>\<close>

text \<open>\<^verbatim>\<open>re.match(r"Act\[\d+]", col)\<close>: the label starts with \<^verbatim>\<open>Act[\<close>, one or more digits
  and \<^verbatim>\<open>]\<close>.\<close>

definition is_digit :: "char \<Rightarrow> bool" where
  "is_digit c \<longleftrightarrow> CHR ''0'' \<le> c \<and> c \<le> CHR ''9''"

definition is_act_col :: "string \<Rightarrow> bool" where
  "is_act_col col \<longleftrightarrow>
     take 4 col = ''Act['' \<and>
     takeWhile is_digit (drop 4 col) \<noteq> [] \<and>
     take 1 (dropWhile is_digit (drop 4 col)) = '']''"

definition act_name :: "nat \<Rightarrow> string" where
  "act_name offset = ''Act['' @ show_nat offset @ '']''"

definition minute_ns :: int where
  "minute_ns = 60000000000"

text \<open>\<^verbatim>\<open>base_time - pd.Timedelta(minutes=offset)\<close>; \<open>NaT\<close> stays \<open>NaT\<close>.\<close>

definition minus_minutes :: "cell \<Rightarrow> nat \<Rightarrow> cell" where
  "minus_minutes c offset = (case c of Ts t \<Rightarrow> Ts (t - int offset * minute_ns) | _ \<Rightarrow> NaT)"

text \<open>\<^verbatim>\<open>row.get(c, None)\<close>.\<close>

definition row_get :: "frame \<Rightarrow> row \<Rightarrow> string \<Rightarrow> cell" where
  "row_get df r c = (if c \<in> set (columns df) then get_cell r c else PyNone)"

definition new_row :: "frame \<Rightarrow> cell \<Rightarrow> row \<Rightarrow> nat \<Rightarrow> error + row" where
  "new_row df device_id r offset =
     (if act_name offset \<in> set (columns df) then
        Inr [(DELINEATING_COL, device_id),
             (''Time'', minus_minutes (get_cell r TIME_COLUMN) offset),
             (''Act'', get_cell r (act_name offset)),
             (''T'', row_get df r ''T''),
             (''Light'', row_get df r ''Light''),
             (''Vbat'', row_get df r ''Vbat'')]
      else Inl KeyError)"

text \<open>\<^verbatim>\<open>df.groupby(DELINEATING_COL)\<close>: the groups in ascending key order, each with its
  rows in input order; rows whose key is missing belong to no group.\<close>

definition device_groups :: "frame \<Rightarrow> (cell \<times> row list) list" where
  "device_groups df =
     map (\<lambda>k. (k, filter (\<lambda>r. get_cell r DELINEATING_COL = k) (rows df)))
       (sort_key cell_key
          (remdups (filter (\<lambda>c. \<not> isna c) (map (\<lambda>r. get_cell r DELINEATING_COL) (rows df)))))"

definition expand_row :: "frame \<Rightarrow> nat \<Rightarrow> cell \<Rightarrow> row \<Rightarrow> error + row list" where
  "expand_row df k device_id r = traverse (new_row df device_id r) [0..<k]"

definition expand_group :: "frame \<Rightarrow> nat \<Rightarrow> cell \<times> row list \<Rightarrow> error + row list" where
  "expand_group df k g =
     (case traverse (expand_row df k (fst g)) (snd g) of
        Inl e \<Rightarrow> Inl e
      | Inr rss \<Rightarrow> Inr (concat rss))"

definition time_key :: "cell \<Rightarrow> nat \<times> int" where
  "time_key c = (case c of Ts t \<Rightarrow> (0, t) | _ \<Rightarrow> (1, 0))"

definition melt_key :: "row \<Rightarrow> (nat \<times> real \<times> int \<times> string) \<times> (nat \<times> int)" where
  "melt_key r = (cell_key (get_cell r DELINEATING_COL), time_key (get_cell r ''Time''))"

definition melted_columns :: "string list" where
  "melted_columns = [DELINEATING_COL, ''Time'', ''Act'', ''T'', ''Light'', ''Vbat'']"

text \<open>
  The function, line by line: the activity columns are counted, the time column is
  coerced in place (\<^verbatim>\<open>KeyError\<close> without it), the frame is grouped by device
  (\<^verbatim>\<open>KeyError\<close> without the device column), every row of every group gives one new row
  per offset, \<^verbatim>\<open>pd.DataFrame(melted_rows)\<close> has the six labels of \<^verbatim>\<open>new_row\<close> unless
  the list is empty (then it has no column and \<^verbatim>\<open>dropna(subset=["Act"])\<close> raises
  \<^verbatim>\<open>KeyError\<close>), rows with a missing \<^verbatim>\<open>Act\<close> are dropped and the rest is sorted, stably,
  by device and time.
\<close>

definition melt_activity_data :: "(cell \<Rightarrow> int option) \<Rightarrow> frame \<Rightarrow> frame \<times> (error + frame)" where
  "melt_activity_data p df =
     (let act_cols = filter is_act_col (columns df) in
      if TIME_COLUMN \<notin> set (columns df) then (df, Inl KeyError)
      else
        let df1 = coerce_time p df in
        if DELINEATING_COL \<notin> set (columns df1) then (df1, Inl KeyError)
        else
          (case traverse (expand_group df1 (length act_cols)) (device_groups df1) of
             Inl e \<Rightarrow> (df1, Inl e)
           | Inr rss \<Rightarrow>
               let melted_rows = concat rss in
               if melted_rows = [] then (df1, Inl KeyError)
               else
                 (df1,
                  Inr \<lparr>columns = melted_columns,
                       rows = sort_key melt_key
                                (filter (\<lambda>r. \<not> isna (get_cell r ''Act'')) melted_rows)\<rparr>)))"

section \<open>The Binner: \<^verbatim>\<open>bin_data\<close>\<close>

subsection \<open>The interval string\<close>

text \<open>\<^verbatim>\<open>re.search(r"(\d+)", interval)\<close>: the first maximal run of digits, anywhere in the
  string (strings are taken as ASCII).\<close>

definition re_search_digits :: "string \<Rightarrow> string option" where
  "re_search_digits s =
     (case dropWhile (\<lambda>c. \<not> is_digit c) s of
        [] \<Rightarrow> None
      | c # cs \<Rightarrow> Some (takeWhile is_digit (c # cs)))"

definition digit_val :: "char \<Rightarrow> nat" where
  "digit_val c = of_char c - 48"

definition int_of_digits :: "string \<Rightarrow> nat" where
  "int_of_digits ds = foldl (\<lambda>a c. 10 * a + digit_val c) 0 ds"

text \<open>
  \<^verbatim>\<open>float(match.group(1))\<close> rounds the number to the nearest double, ties to even; below
  \<open>2 ^ 53\<close> it is exact, and from \<open>2 ^ 1024\<close> on the result is infinite (\<open>None\<close> here), which
  \<^verbatim>\<open>int(duration_value)\<close> refuses with \<^verbatim>\<open>OverflowError\<close>.
\<close>

fun bitlen :: "nat \<Rightarrow> nat" where
  "bitlen n = (if n = 0 then 0 else Suc (bitlen (n div 2)))"

declare bitlen.simps [simp del]

definition py_float :: "nat \<Rightarrow> nat option" where
  "py_float n =
     (if n < 2 ^ 53 then Some n
      else
        let e = bitlen n - 53;
            q = n div 2 ^ e;
            r = n mod 2 ^ e;
            h = 2 ^ (e - 1);
            q' = (if h < r \<or> (r = h \<and> odd q) then q + 1 else q)
        in if 2 ^ 1024 \<le> q' * 2 ^ e then None else Some (q' * 2 ^ e))"

text \<open>\<^verbatim>\<open>sub in s\<close> on strings.\<close>

fun py_in :: "string \<Rightarrow> string \<Rightarrow> bool" where
  "py_in sub [] = (sub = [])"
| "py_in sub (c # cs) = (prefix sub (c # cs) \<or> py_in sub cs)"

datatype time_unit = D | H | Minute

definition interval_unit :: "string \<Rightarrow> time_unit" where
  "interval_unit interval =
     (if py_in ''day'' interval then D else if py_in ''hour'' interval then H else Minute)"

definition unit_ns :: "time_unit \<Rightarrow> nat" where
  "unit_ns u = (case u of D \<Rightarrow> 86400000000000 | H \<Rightarrow> 3600000000000 | Minute \<Rightarrow> 60000000000)"

text \<open>
  \<^verbatim>\<open>.dt.floor(freq)\<close> on one cell, the frequency given in nanoseconds: the timestamp is
  rounded down to a multiple of the frequency, counted from the epoch. A frequency of
  zero leaves the timestamp as it is (pandas 2.1 and later).
\<close>

definition floor_ts :: "nat \<Rightarrow> int \<Rightarrow> int" where
  "floor_ts nanos t = (if nanos = 0 then t else t - t mod int nanos)"

definition floor_cell :: "nat \<Rightarrow> cell \<Rightarrow> cell" where
  "floor_cell nanos c = (case c of Ts t \<Rightarrow> Ts (floor_ts nanos t) | _ \<Rightarrow> NaT)"

subsection \<open>One aggregation rule\<close>

text \<open>A column is numeric when each of its cells is a number or \<open>NaN\<close>; any other column
  has dtype \<^verbatim>\<open>object\<close> (or a datetime dtype), on which the model lets \<^verbatim>\<open>np.isnan\<close> raise
  \<^verbatim>\<open>TypeError\<close>.\<close>

fun is_float :: "cell \<Rightarrow> bool" where
  "is_float (Num x) = True"
| "is_float NaN = True"
| "is_float _ = False"

definition float_column :: "frame \<Rightarrow> string \<Rightarrow> bool" where
  "float_column df c = list_all (\<lambda>r. is_float (get_cell r c)) (rows df)"

fun num_values :: "cell list \<Rightarrow> real list" where
  "num_values [] = []"
| "num_values (Num x # cs) = x # num_values cs"
| "num_values (c # cs) = num_values cs"

definition mean :: "real list \<Rightarrow> real" where
  "mean vals = sum_list vals / real (length vals)"

text \<open>\<^verbatim>\<open>agg_func\<close>, closed over \<^verbatim>\<open>cols\<close> and \<^verbatim>\<open>agg\<close>; \<open>df\<close> is the frame the group
  \<open>subdf\<close> is cut from.\<close>

definition agg_func :: "frame \<Rightarrow> string list \<Rightarrow> string \<Rightarrow> row list \<Rightarrow> error + cell" where
  "agg_func df cols agg subdf =
     (if \<not> list_all (\<lambda>c. c \<in> set (columns df)) cols then Inl KeyError
      else if \<not> list_all (float_column df) cols then Inl TypeError
      else
        let vals = num_values (concat (map (\<lambda>r. map (get_cell r) cols) subdf)) in
        if vals = [] then Inr NaN
        else if agg = ''sum'' then Inr (Num (sum_list vals))
        else if agg = ''max'' then Inr (Num (fold max (tl vals) (hd vals)))
        else if agg = ''min'' then Inr (Num (fold min (tl vals) (hd vals)))
        else if agg = ''act_percent'' then Inr (Num (mean vals * 50 + 50))
        else Inr (Num (mean vals)))"

text \<open>\<^verbatim>\<open>df.groupby([DELINEATING_COL, "Bin"])\<close>: groups in ascending key order, without the
  rows that miss one of the two keys.\<close>

definition bin_key :: "row \<Rightarrow> cell \<times> cell" where
  "bin_key r = (get_cell r DELINEATING_COL, get_cell r ''Bin'')"

definition valid_key :: "cell \<times> cell \<Rightarrow> bool" where
  "valid_key k \<longleftrightarrow> \<not> isna (fst k) \<and> \<not> isna (snd k)"

definition pair_key :: "cell \<times> cell \<Rightarrow> (nat \<times> real \<times> int \<times> string) \<times> (nat \<times> real \<times> int \<times> string)" where
  "pair_key k = (cell_key (fst k), cell_key (snd k))"

definition group_keys :: "frame \<Rightarrow> (cell \<times> cell) list" where
  "group_keys df = sort_key pair_key (remdups (filter valid_key (map bin_key (rows df))))"

definition bin_groups :: "frame \<Rightarrow> ((cell \<times> cell) \<times> row list) list" where
  "bin_groups df = map (\<lambda>k. (k, filter (\<lambda>r. bin_key r = k) (rows df))) (group_keys df)"

definition rule_name :: "nat \<times> cfg \<Rightarrow> string" where
  "rule_name rule = (case cfg_name (snd rule) of Some n \<Rightarrow> n | None \<Rightarrow> ''Bin_'' @ show_nat (fst rule))"

definition rule_columns :: "nat \<times> cfg \<Rightarrow> string list" where
  "rule_columns rule = (case cfg_columns (snd rule) of Some cs \<Rightarrow> cs | None \<Rightarrow> [])"

definition rule_agg :: "nat \<times> cfg \<Rightarrow> string" where
  "rule_agg rule = (case cfg_summarize (snd rule) of Some a \<Rightarrow> a | None \<Rightarrow> ''mean'')"

definition summary_row :: "frame \<Rightarrow> nat \<times> cfg \<Rightarrow> (cell \<times> cell) \<times> row list \<Rightarrow> error + row" where
  "summary_row df rule g =
     (case agg_func df (rule_columns rule) (rule_agg rule) (snd g) of
        Inl e \<Rightarrow> Inl e
      | Inr v \<Rightarrow> Inr [(DELINEATING_COL, fst (fst g)), (''Bin'', snd (fst g)), (rule_name rule, v)])"

text \<open>The body of the loop over the rules: group, apply, \<^verbatim>\<open>reset_index\<close>, rename. (For
  a frame without any group the labels of the empty result are taken to be the same
  three.)\<close>

definition rule_summary :: "frame \<Rightarrow> nat \<times> cfg \<Rightarrow> error + frame" where
  "rule_summary df rule =
     (if DELINEATING_COL \<notin> set (columns df) \<or> ''Bin'' \<notin> set (columns df) then Inl KeyError
      else
        (case traverse (summary_row df rule) (bin_groups df) of
           Inl e \<Rightarrow> Inl e
         | Inr rs \<Rightarrow> Inr \<lparr>columns = [DELINEATING_COL, ''Bin'', rule_name rule], rows = rs\<rparr>))"

subsection \<open>The left join\<close>

text \<open>
  \<^verbatim>\<open>out.merge(summary_df, on=[DELINEATING_COL, "Bin"], how="left")\<close>. Each key label must
  be unique in both frames (\<^verbatim>\<open>ValueError\<close>). A label other than the keys that both frames
  have gets the suffix \<^verbatim>\<open>_x\<close> on the left and \<^verbatim>\<open>_y\<close> on the right; a label that the suffix
  makes a duplicate raises \<^verbatim>\<open>MergeError\<close>. The rows of the left frame keep their order;
  each is paired with every row of the right frame that has its key, or filled with
  \<open>NaN\<close> when there is none.
\<close>

definition merge_keys :: "string list" where
  "merge_keys = [DELINEATING_COL, ''Bin'']"

definition suffixed :: "string list \<Rightarrow> string \<Rightarrow> string \<Rightarrow> string" where
  "suffixed to_rename sfx c = (if c \<in> set to_rename then c @ sfx else c)"

fun duplicated :: "'a list \<Rightarrow> 'a list \<Rightarrow> bool list" where
  "duplicated seen [] = []"
| "duplicated seen (x # xs) = (x \<in> set seen) # duplicated (x # seen) xs"

definition suffix_dups :: "string list \<Rightarrow> string list \<Rightarrow> bool" where
  "suffix_dups old new \<longleftrightarrow>
     list_ex (\<lambda>(a, b). b \<and> \<not> a) (zip (duplicated [] old) (duplicated [] new))"

definition rename_row :: "(string \<Rightarrow> string) \<Rightarrow> row \<Rightarrow> row" where
  "rename_row f r = map (\<lambda>(c, v). (f c, v)) r"

definition merge_left :: "frame \<Rightarrow> frame \<Rightarrow> error + frame" where
  "merge_left left right =
     (if \<not> list_all (\<lambda>k. count_list (columns left) k = 1 \<and> count_list (columns right) k = 1)
            merge_keys
      then Inl ValueError
      else
        let rcols = filter (\<lambda>c. c \<notin> set merge_keys) (columns right);
            to_rename = filter (\<lambda>c. c \<in> set rcols) (columns left);
            llabels = map (suffixed to_rename ''_x'') (columns left);
            rlabels = map (suffixed to_rename ''_y'') rcols
        in
          if suffix_dups (columns left) llabels \<or> suffix_dups rcols rlabels then Inl MergeError
          else
            Inr \<lparr>columns = llabels @ rlabels,
                 rows =
                   concat (map (\<lambda>l.
                     let l' = rename_row (suffixed to_rename ''_x'') l;
                         ms = filter (\<lambda>r. bin_key r = bin_key l) (rows right)
                     in if ms = [] then [l' @ map (\<lambda>c. (c, NaN)) rlabels]
                        else map (\<lambda>r. l' @ rename_row (suffixed to_rename ''_y'')
                                              (filter (\<lambda>(c, v). c \<notin> set merge_keys) r)) ms)
                     (rows left))\<rparr>)"

fun merge_all :: "frame \<Rightarrow> frame list \<Rightarrow> error + frame" where
  "merge_all out [] = Inr out"
| "merge_all out (summary_df # rest) =
     (case merge_left out summary_df of
        Inl e \<Rightarrow> Inl e
      | Inr out' \<Rightarrow> merge_all out' rest)"

definition rename_column :: "string \<Rightarrow> string \<Rightarrow> frame \<Rightarrow> frame" where
  "rename_column old new df =
     \<lparr>columns = map (\<lambda>c. if c = old then new else c) (columns df),
      rows = map (rename_row (\<lambda>c. if c = old then new else c)) (rows df)\<rparr>"

subsection \<open>The function\<close>

text \<open>Lines 77 to 88: the time column is coerced in place and the column \<^verbatim>\<open>Bin\<close> is
  assigned, for a frequency of \<open>nanos\<close> nanoseconds.\<close>

definition with_bins :: "(cell \<Rightarrow> int option) \<Rightarrow> nat \<Rightarrow> frame \<Rightarrow> frame" where
  "with_bins p nanos df =
     set_column ''Bin'' (\<lambda>r. floor_cell nanos (get_cell r TIME_COLUMN)) (coerce_time p df)"

text \<open>Lines 90 to 124: one summary per rule, joined from the first one on, or a copy of
  the frame when there is no rule; \<^verbatim>\<open>Bin\<close> is renamed to \<^verbatim>\<open>Time\<close>.\<close>

definition summarise :: "schedule \<Rightarrow> frame \<Rightarrow> error + frame" where
  "summarise sched df =
     (case traverse (rule_summary df) sched of
        Inl e \<Rightarrow> Inl e
      | Inr summary \<Rightarrow>
          (case summary of
             [] \<Rightarrow> Inr (rename_column ''Bin'' ''Time'' df)
           | s # rest \<Rightarrow>
               (case merge_all s rest of
                  Inl e \<Rightarrow> Inl e
                | Inr out \<Rightarrow> Inr (rename_column ''Bin'' ''Time'' out))))"

text \<open>
  In the order of the source: the digits are searched (\<^verbatim>\<open>ValueError\<close> when there are
  none) and converted to a float; the time column is coerced in place (\<^verbatim>\<open>KeyError\<close>
  without it); the unit is chosen; the frequency is built from \<^verbatim>\<open>int(duration_value)\<close>
  and the unit (pandas refuses a frequency beyond 64 bits of nanoseconds) and the
  column \<^verbatim>\<open>Bin\<close> is assigned; then the rules are summarised. The aggregation table is
  the parameter \<open>sched\<close>; the source reads \<open>SELECTED_COLUMNS\<close>.
\<close>

definition bin_data ::
  "(cell \<Rightarrow> int option) \<Rightarrow> schedule \<Rightarrow> frame \<Rightarrow> string \<Rightarrow> frame \<times> (error + frame)" where
  "bin_data p sched df interval =
     (case re_search_digits interval of
        None \<Rightarrow> (df, Inl ValueError)
      | Some ds \<Rightarrow>
          let duration_value = py_float (int_of_digits ds) in
          if TIME_COLUMN \<notin> set (columns df) then (df, Inl KeyError)
          else
            let u = interval_unit interval in
            (case duration_value of
               None \<Rightarrow> (coerce_time p df, Inl OverflowError)
             | Some n \<Rightarrow>
                 if 2 ^ 63 \<le> n * unit_ns u then (coerce_time p df, Inl OutOfBounds)
                 else
                   let df2 = with_bins p (n * unit_ns u) df
                   in (df2, summarise sched df2)))"

text \<open>\<^verbatim>\<open>melt_then_bin\<close>: the Binner runs on the Reshaper's result.\<close>

definition melt_then_bin ::
  "(cell \<Rightarrow> int option) \<Rightarrow> schedule \<Rightarrow> frame \<Rightarrow> string \<Rightarrow> frame \<times> (error + frame)" where
  "melt_then_bin p sched df interval =
     (case melt_activity_data p df of
        (df', Inl e) \<Rightarrow> (df', Inl e)
      | (df', Inr melted) \<Rightarrow> (df', snd (bin_data p sched melted interval)))"

section \<open>Notions for the statements\<close>

text \<open>The row that the Reshaper derives from row \<open>r\<close> of its input for slot \<open>i\<close>: the
  device, the coerced time less \<open>i\<close> minutes, the sample of the slot, and the three
  instantaneous fields.\<close>

definition derived_row :: "(cell \<Rightarrow> int option) \<Rightarrow> frame \<Rightarrow> row \<Rightarrow> nat \<Rightarrow> row" where
  "derived_row p df r i =
     [(DELINEATING_COL, get_cell r DELINEATING_COL),
      (''Time'', minus_minutes (to_datetime p (get_cell r TIME_COLUMN)) i),
      (''Act'', get_cell r (act_name i)),
      (''T'', row_get df r ''T''),
      (''Light'', row_get df r ''Light''),
      (''Vbat'', row_get df r ''Vbat'')]"

text \<open>The key of a row of the Binner's result, and the key the Binner derives from a
  row of its input for a frequency of \<open>nanos\<close> nanoseconds.\<close>

definition out_key :: "row \<Rightarrow> cell \<times> cell" where
  "out_key r = (get_cell r DELINEATING_COL, get_cell r ''Time'')"

definition input_key :: "(cell \<Rightarrow> int option) \<Rightarrow> nat \<Rightarrow> row \<Rightarrow> cell \<times> cell" where
  "input_key p nanos r =
     (get_cell r DELINEATING_COL, floor_cell nanos (to_datetime p (get_cell r TIME_COLUMN)))"

text \<open>The value of a rule on the group of a key, for stating what the summaries hold.\<close>

definition agg_value :: "frame \<Rightarrow> nat \<times> cfg \<Rightarrow> cell \<times> cell \<Rightarrow> cell" where
  "agg_value df rule k =
     (case agg_func df (rule_columns rule) (rule_agg rule) (filter (\<lambda>r. bin_key r = k) (rows df)) of
        Inr v \<Rightarrow> v
      | Inl e \<Rightarrow> NaN)"

text \<open>The summary of one rule: one row per group key, with the rule's value.\<close>

definition summary_of :: "frame \<Rightarrow> nat \<times> cfg \<Rightarrow> frame" where
  "summary_of df rule =
     \<lparr>columns = [DELINEATING_COL, ''Bin'', rule_name rule],
      rows = map (\<lambda>k. [(DELINEATING_COL, fst k), (''Bin'', snd k), (rule_name rule, agg_value df rule k)])
               (group_keys df)\<rparr>"

text \<open>The number that a string of decimal digits denotes.\<close>

definition decimal :: "string \<Rightarrow> nat" where
  "decimal ds = (\<Sum>i<length ds. (of_char (rev ds ! i) - 48) * 10 ^ i)"

text \<open>The length in nanoseconds of the unit of an interval string, as the unit is to be
  chosen: a day when the string contains \<^verbatim>\<open>day\<close>, else an hour when it contains
  \<^verbatim>\<open>hour\<close>, else a minute.\<close>

definition width_by_containment :: "string \<Rightarrow> nat" where
  "width_by_containment interval =
     (if sublist ''day'' interval then 86400000000000
      else if sublist ''hour'' interval then 3600000000000
      else 60000000000)"

text \<open>\<open>ds\<close> is the first number in the interval string: a non-empty run of decimal
  digits with no digit before it and none right after it.\<close>

definition first_number :: "string \<Rightarrow> string \<Rightarrow> bool" where
  "first_number interval ds \<longleftrightarrow>
     (\<exists>pre post. interval = pre @ ds @ post \<and>
        (\<forall>c\<in>set pre. c \<notin> set ''0123456789'') \<and>
        ds \<noteq> [] \<and> (\<forall>c\<in>set ds. c \<in> set ''0123456789'') \<and>
        (post = [] \<or> hd post \<notin> set ''0123456789''))"

section \<open>Example tables\<close>

text \<open>A wide table as it is read from a file, with three activity slots and the time
  still a string, and what pandas reads from the two well-formed strings in it.\<close>

definition parse_example :: "cell \<Rightarrow> int option" where
  "parse_example c =
     (if c = Str ''2024-01-01 10:07:00'' then Some 1704103620000000000
      else if c = Str ''2024-01-01 10:08:00'' then Some 1704103680000000000
      else None)"

definition wide_example :: frame where
  "wide_example =
     \<lparr>columns = [''Dataset'', ''Time'', ''Act[0]'', ''Act[1]'', ''Act[2]'', ''T'', ''Light'',
                 ''Vbat''],
      rows =
        [[(''Dataset'', Str ''B''), (''Time'', Str ''2024-01-01 10:07:00''),
          (''Act[0]'', Num 1), (''Act[1]'', NaN), (''Act[2]'', Num (-1)),
          (''T'', Num 20), (''Light'', Num 5), (''Vbat'', Num 3)],
         [(''Dataset'', Str ''A''), (''Time'', Str ''2024-01-01 10:08:00''),
          (''Act[0]'', Num 1), (''Act[1]'', Num 0), (''Act[2]'', Num (-1)),
          (''T'', Num 21), (''Light'', NaN), (''Vbat'', Num 3)],
         [(''Dataset'', Str ''A''), (''Time'', Str ''garbled''),
          (''Act[0]'', Num 1), (''Act[1]'', Num 1), (''Act[2]'', NaN),
          (''T'', Num 22), (''Light'', Num 6), (''Vbat'', Num 3)]]\<rparr>"

text \<open>What the Reshaper returns for the wide table above.\<close>

definition melted_example :: frame where
  "melted_example =
     \<lparr>columns = [''Dataset'', ''Time'', ''Act'', ''T'', ''Light'', ''Vbat''],
      rows =
        [[(''Dataset'', Str ''A''), (''Time'', Ts 1704103560000000000), (''Act'', Num (- 1)),
          (''T'', Num 21), (''Light'', NaN), (''Vbat'', Num 3)],
         [(''Dataset'', Str ''A''), (''Time'', Ts 1704103620000000000), (''Act'', Num 0),
          (''T'', Num 21), (''Light'', NaN), (''Vbat'', Num 3)],
         [(''Dataset'', Str ''A''), (''Time'', Ts 1704103680000000000), (''Act'', Num 1),
          (''T'', Num 21), (''Light'', NaN), (''Vbat'', Num 3)],
         [(''Dataset'', Str ''A''), (''Time'', NaT), (''Act'', Num 1),
          (''T'', Num 22), (''Light'', Num 6), (''Vbat'', Num 3)],
         [(''Dataset'', Str ''A''), (''Time'', NaT), (''Act'', Num 1),
          (''T'', Num 22), (''Light'', Num 6), (''Vbat'', Num 3)],
         [(''Dataset'', Str ''B''), (''Time'', Ts 1704103500000000000), (''Act'', Num (- 1)),
          (''T'', Num 20), (''Light'', Num 5), (''Vbat'', Num 3)],
         [(''Dataset'', Str ''B''), (''Time'', Ts 1704103620000000000), (''Act'', Num 1),
          (''T'', Num 20), (''Light'', Num 5), (''Vbat'', Num 3)]]\<rparr>"

text \<open>A long table of one day, 2024-01-01 (day 19723 of the epoch): device \<^verbatim>\<open>A\<close> at
  10:07, 10:15:00 and 10:16, device \<^verbatim>\<open>B\<close> at 10:07 with no temperature.\<close>

definition long_example :: frame where
  "long_example =
     \<lparr>columns = [''Dataset'', ''Time'', ''Act'', ''T'', ''Light'', ''Vbat''],
      rows =
        [[(''Dataset'', Str ''A''), (''Time'', Ts 1704103620000000000), (''Act'', Num 1),
          (''T'', Num 20), (''Light'', Num 5), (''Vbat'', Num 3)],
         [(''Dataset'', Str ''B''), (''Time'', Ts 1704103620000000000), (''Act'', Num (-1)),
          (''T'', NaN), (''Light'', Num 7), (''Vbat'', Num 3)],
         [(''Dataset'', Str ''A''), (''Time'', Ts 1704104100000000000), (''Act'', Num 0),
          (''T'', Num 21), (''Light'', Num 5), (''Vbat'', Num 3)],
         [(''Dataset'', Str ''A''), (''Time'', Ts 1704104160000000000), (''Act'', Num 1),
          (''T'', Num 23), (''Light'', Num 6), (''Vbat'', Num 3)]]\<rparr>"

text \<open>What the Binner returns for the long table above, the table of \<^verbatim>\<open>config.py\<close> and
  an interval of fifteen minutes.\<close>

definition binned_example :: frame where
  "binned_example =
     \<lparr>columns = [''Dataset'', ''Time'', ''Raw Score'', ''Percent Score'', ''Temperature'',
                 ''Light'', ''Battery Voltage''],
      rows =
        [[(''Dataset'', Str ''A''), (''Time'', Ts 1704103200000000000),
          (''Raw Score'', Num 1), (''Percent Score'', Num 100), (''Temperature'', Num 20),
          (''Light'', Num 5), (''Battery Voltage'', Num 3)],
         [(''Dataset'', Str ''A''), (''Time'', Ts 1704104100000000000),
          (''Raw Score'', Num (1 / 2)), (''Percent Score'', Num 75),
          (''Temperature'', Num 22), (''Light'', Num (11 / 2)),
          (''Battery Voltage'', Num 3)],
         [(''Dataset'', Str ''B''), (''Time'', Ts 1704103200000000000),
          (''Raw Score'', Num (- 1)), (''Percent Score'', Num 0), (''Temperature'', NaN),
          (''Light'', Num 7), (''Battery Voltage'', Num 3)]]\<rparr>"

text \<open>A schedule that takes the mean of two columns of the binned table under their
  own names.\<close>

definition rebin_schedule :: schedule where
  "rebin_schedule =
     [(1, \<lparr>cfg_name = Some ''Raw Score'', cfg_summarize = Some ''mean'',
           cfg_columns = Some [''Raw Score'']\<rparr>),
      (2, \<lparr>cfg_name = Some ''Temperature'', cfg_summarize = Some ''mean'',
           cfg_columns = Some [''Temperature'']\<rparr>)]"

text \<open>Two rules that share the output name \<^verbatim>\<open>Score\<close>.\<close>

definition score_mean :: "nat \<times> cfg" where
  "score_mean = (1, \<lparr>cfg_name = Some ''Score'', cfg_summarize = Some ''mean'',
                      cfg_columns = Some [''Act'']\<rparr>)"

definition score_sum :: "nat \<times> cfg" where
  "score_sum = (2, \<lparr>cfg_name = Some ''Score'', cfg_summarize = Some ''sum'',
                     cfg_columns = Some [''Act'']\<rparr>)"

text \<open>The equations by which the examples are evaluated.\<close>

lemmas model_defs =
  bin_data_def with_bins_def summarise_def coerce_time_def set_column_def TIME_COLUMN_def
  DELINEATING_COL_def re_search_digits_def is_digit_def int_of_digits_def digit_val_def
  py_float_def interval_unit_def unit_ns_def floor_cell_def floor_ts_def get_cell_def
  to_datetime_def rule_summary_def bin_groups_def group_keys_def bin_key_def valid_key_def
  pair_key_def cell_key_def summary_row_def rule_name_def rule_columns_def rule_agg_def
  agg_func_def float_column_def mean_def merge_left_def merge_keys_def suffixed_def
  suffix_dups_def rename_row_def rename_column_def SELECTED_COLUMNS_def

lemmas melt_defs =
  melt_activity_data_def coerce_time_def set_column_def TIME_COLUMN_def DELINEATING_COL_def
  is_act_col_def is_digit_def device_groups_def get_cell_def to_datetime_def cell_key_def
  expand_group_def expand_row_def new_row_def act_name_def show_nat.simps digit_char_def
  row_get_def minus_minutes_def minute_ns_def melt_key_def time_key_def melted_columns_def

section \<open>The interval parser\<close>

lemma re_search_digits_None: "re_search_digits s = None \<longleftrightarrow> (\<forall>c\<in>set s. \<not> is_digit c)"
proof (cases "dropWhile (\<lambda>c. \<not> is_digit c) s")
  case Nil
  have "re_search_digits s = None" unfolding re_search_digits_def Nil by simp
  moreover have "\<forall>c\<in>set s. \<not> is_digit c" using Nil by simp
  ultimately show ?thesis by simp
next
  case (Cons c cs)
  have "re_search_digits s \<noteq> None" unfolding re_search_digits_def Cons by simp
  moreover have "\<not> (\<forall>c\<in>set s. \<not> is_digit c)"
    using Cons dropWhile_eq_Nil_conv[of "\<lambda>c. \<not> is_digit c" s] by auto
  ultimately show ?thesis by blast
qed

lemma re_search_digits_Some:
  assumes "re_search_digits s = Some ds"
  shows "\<exists>pre post. s = pre @ ds @ post \<and> (\<forall>c\<in>set pre. \<not> is_digit c) \<and> ds \<noteq> [] \<and>
           (\<forall>c\<in>set ds. is_digit c) \<and> (post = [] \<or> \<not> is_digit (hd post))"
proof -
  let ?pre = "takeWhile (\<lambda>c. \<not> is_digit c) s"
  let ?rest = "dropWhile (\<lambda>c. \<not> is_digit c) s"
  let ?post = "dropWhile is_digit ?rest"
  from assms have rest: "?rest \<noteq> []"
    by (auto simp add: re_search_digits_def simp del: dropWhile_eq_Nil_conv)
  from assms have ds: "ds = takeWhile is_digit ?rest"
    by (simp add: re_search_digits_def split: list.splits)
  have "s = ?pre @ ds @ ?post" using ds by simp
  moreover have "\<forall>c\<in>set ?pre. \<not> is_digit c" by (auto dest: set_takeWhileD)
  moreover have "ds \<noteq> []" using rest ds hd_dropWhile[of "\<lambda>c. \<not> is_digit c" s]
    by (cases ?rest) auto
  moreover have "\<forall>c\<in>set ds. is_digit c" using ds by (auto dest: set_takeWhileD)
  moreover have "?post = [] \<or> \<not> is_digit (hd ?post)"
    using hd_dropWhile[of is_digit ?rest] by blast
  ultimately show ?thesis by blast
qed

lemma py_in_sublist: "py_in sub s \<longleftrightarrow> sublist sub s"
  by (induction s) (auto simp: sublist_Cons_right)

lemma bitlen_bounds: "0 < n \<Longrightarrow> 2 ^ (bitlen n - 1) \<le> n \<and> n < 2 ^ bitlen n"
proof (induction n rule: bitlen.induct)
  case (1 n)
  show ?case
  proof (cases "n div 2 = 0")
    case True
    with "1.prems" have "n = 1" by (simp add: div_eq_0_iff) 
    then show ?thesis by (simp add: bitlen.simps)
  next
    case False
    with "1.IH" "1.prems" have ih: "2 ^ (bitlen (n div 2) - 1) \<le> n div 2" "n div 2 < 2 ^ bitlen (n div 2)"
      by auto
    have pos: "0 < bitlen (n div 2)" using False by (subst bitlen.simps) simp
    have b: "bitlen n = Suc (bitlen (n div 2))" using "1.prems" by (subst bitlen.simps) simp
    define X :: nat where "X = 2 ^ (bitlen (n div 2) - 1)"
    have X2: "2 ^ bitlen (n div 2) = 2 * X" using pos
      by (cases "bitlen (n div 2)") (auto simp: X_def)
    have "2 ^ (bitlen n - 1) = 2 * X" "2 ^ bitlen n = 4 * X"
      using b X2 by auto
    moreover have "X \<le> n div 2" "n div 2 < 2 * X" using ih X2 by (auto simp: X_def)
    ultimately show ?thesis by presburger
  qed
qed

lemma py_float_exact: "n < 2 ^ 53 \<Longrightarrow> py_float n = Some n"
  by (simp add: py_float_def)

lemma py_float_large:
  assumes "\<not> n < 2 ^ 53" and "py_float n = Some m"
  shows "2 ^ 52 \<le> m"
proof -
  define e where "e = bitlen n - 53"
  have npos: "0 < n" using assms(1) by (cases n) auto
  from bitlen_bounds[OF npos] have lo: "2 ^ (bitlen n - 1) \<le> n" and hi: "n < 2 ^ bitlen n" by auto
  have "(2::nat) ^ 53 < 2 ^ bitlen n" using assms(1) hi by linarith
  then have bl: "53 < bitlen n" by (rule power_less_imp_less_exp[rotated]) simp
  then have eq: "bitlen n - 1 = 52 + e" by (simp add: e_def)
  have "(2::nat) ^ 52 * 2 ^ e \<le> n" using lo eq by (simp add: power_add)
  then have q: "2 ^ 52 \<le> n div 2 ^ e"
    by (simp add: less_eq_div_iff_mult_less_eq)
  define q' where "q' = (if 2 ^ (e - 1) < n mod 2 ^ e \<or> (n mod 2 ^ e = 2 ^ (e - 1) \<and> odd (n div 2 ^ e))
                          then n div 2 ^ e + 1 else n div 2 ^ e)"
  have "py_float n = (if 2 ^ 1024 \<le> q' * 2 ^ e then None else Some (q' * 2 ^ e))"
    using assms(1) by (simp add: py_float_def Let_def e_def q'_def)
  with assms(2) have m: "m = q' * 2 ^ e" by (simp split: if_splits)
  have q': "n div 2 ^ e \<le> q'" by (simp add: q'_def)
  have "(2::nat) ^ 52 \<le> q'" using q q' by linarith
  also have "q' \<le> q' * 2 ^ e" by simp
  finally show ?thesis using m by simp
qed

lemma py_float_in_range:
  assumes "py_float n = Some m" and "m * unit_ns u < 2 ^ 63"
  shows "m = n"
proof (cases "n < 2 ^ 53")
  case True
  with assms(1) show ?thesis by (simp add: py_float_def)
next
  case False
  from py_float_large[OF False assms(1)] have "2 ^ 52 \<le> m" .
  moreover have "60000000000 \<le> unit_ns u" by (cases u) (simp_all add: unit_ns_def)
  ultimately have "2 ^ 52 * 60000000000 \<le> m * unit_ns u" by (rule mult_le_mono)
  with assms(2) show ?thesis by simp
qed

text \<open>The model's reading of the interval agrees with the notions above.\<close>

lemma is_digit_iff: "is_digit c \<longleftrightarrow> c \<in> set ''0123456789''"
proof
  assume "c \<in> set ''0123456789''"
  then show "is_digit c" by (auto simp: is_digit_def)
next
  assume d: "is_digit c"
  define n where "n = (of_char c :: nat)"
  have c: "c = char_of n" by (simp add: n_def)
  from d have "48 \<le> n \<and> n \<le> 57"
    by (simp add: is_digit_def less_eq_char_def n_def)
  then have "n = 48 \<or> n = 49 \<or> n = 50 \<or> n = 51 \<or> n = 52 \<or> n = 53 \<or> n = 54 \<or> n = 55 \<or>
             n = 56 \<or> n = 57"
    by arith
  then show "c \<in> set ''0123456789''"
    unfolding c by (elim disjE) (simp_all add: char_of_def bit_Suc_0_iff)
qed


lemma int_of_digits_snoc: "int_of_digits (ds @ [c]) = 10 * int_of_digits ds + digit_val c"
  by (simp add: int_of_digits_def)

lemma decimal_snoc: "decimal (ds @ [c]) = 10 * decimal ds + (of_char c - 48)"
proof -
  have "decimal (ds @ [c]) = (\<Sum>i<Suc (length ds). (of_char ((c # rev ds) ! i) - 48) * 10 ^ i)"
    by (simp add: decimal_def)
  also have "\<dots> = (of_char c - 48) + (\<Sum>i<length ds. (of_char (rev ds ! i) - 48) * 10 ^ Suc i)"
    by (subst sum.lessThan_Suc_shift) simp
  also have "(\<Sum>i<length ds. (of_char (rev ds ! i) - 48) * 10 ^ Suc i) = 10 * decimal ds"
    by (simp add: decimal_def sum_distrib_left mult_ac)
  finally show ?thesis by simp
qed

lemma int_of_digits_decimal: "int_of_digits ds = decimal ds"
proof (induction ds rule: rev_induct)
  case Nil
  show ?case by (simp add: int_of_digits_def decimal_def)
next
  case (snoc c ds)
  then show ?case by (simp add: int_of_digits_snoc decimal_snoc digit_val_def)
qed

lemma unit_width: "unit_ns (interval_unit interval) = width_by_containment interval"
  by (simp add: unit_ns_def interval_unit_def width_by_containment_def py_in_sublist)

lemma first_number_search: "first_number interval ds \<longleftrightarrow> re_search_digits interval = Some ds"
proof
  assume "first_number interval ds"
  then obtain pre post where i: "interval = pre @ ds @ post"
    and pre: "\<forall>c\<in>set pre. \<not> is_digit c" and ne: "ds \<noteq> []"
    and ds: "\<forall>c\<in>set ds. is_digit c" and post: "post = [] \<or> \<not> is_digit (hd post)"
    by (auto simp: first_number_def is_digit_iff)
  from ne obtain d ds' where dd: "ds = d # ds'" by (cases ds) auto
  have "dropWhile (\<lambda>c. \<not> is_digit c) interval = dropWhile (\<lambda>c. \<not> is_digit c) (ds @ post)"
    unfolding i using pre by (intro dropWhile_append2) auto
  also have "\<dots> = ds @ post" using ds by (simp add: dd)
  finally have dw: "dropWhile (\<lambda>c. \<not> is_digit c) interval = d # ds' @ post" by (simp add: dd)
  have "takeWhile is_digit post = []" using post by (cases post) auto
  then have "takeWhile is_digit (ds @ post) = ds" using ds by (simp add: takeWhile_append2)
  then show "re_search_digits interval = Some ds"
    unfolding re_search_digits_def dw by (simp add: dd)
next
  assume "re_search_digits interval = Some ds"
  from re_search_digits_Some[OF this] show "first_number interval ds"
    unfolding first_number_def is_digit_iff by blast
qed

section \<open>What a successful run of the Binner fixes\<close>

lemma bin_data_Inr:
  assumes "snd (bin_data p sched df interval) = Inr out"
  obtains ds where "re_search_digits interval = Some ds"
    and "TIME_COLUMN \<in> set (columns df)"
    and "int_of_digits ds * unit_ns (interval_unit interval) < 2 ^ 63"
    and "fst (bin_data p sched df interval) =
           with_bins p (int_of_digits ds * unit_ns (interval_unit interval)) df"
    and "summarise sched (with_bins p (int_of_digits ds * unit_ns (interval_unit interval)) df) = Inr out"
proof -
  from assms obtain ds where ds: "re_search_digits interval = Some ds"
    by (cases "re_search_digits interval") (auto simp: bin_data_def)
  from assms ds have t: "TIME_COLUMN \<in> set (columns df)"
    by (auto simp: bin_data_def Let_def split: if_splits)
  from assms ds t obtain n where n: "py_float (int_of_digits ds) = Some n"
    by (cases "py_float (int_of_digits ds)") (auto simp: bin_data_def Let_def)
  from assms ds t n have r: "n * unit_ns (interval_unit interval) < 2 ^ 63"
    by (auto simp: bin_data_def Let_def split: if_splits)
  from py_float_in_range[OF n r] have nn: "n = int_of_digits ds" .
  from assms ds t n r nn
  have "fst (bin_data p sched df interval) =
           with_bins p (int_of_digits ds * unit_ns (interval_unit interval)) df"
    and "summarise sched (with_bins p (int_of_digits ds * unit_ns (interval_unit interval)) df) = Inr out"
    by (auto simp: bin_data_def Let_def)
  with ds t r nn show thesis using that by blast
qed

lemma get_cell_update: "get_cell (AList.update c v r) c' = (if c' = c then v else get_cell r c')"
  by (simp add: get_cell_def update_conv')

lemma rows_with_bins:
  "rows (with_bins p nanos df) =
     map (\<lambda>r. AList.update ''Bin''
                 (floor_cell nanos (to_datetime p (get_cell r TIME_COLUMN)))
                 (AList.update TIME_COLUMN (to_datetime p (get_cell r TIME_COLUMN)) r))
       (rows df)"
  by (simp add: with_bins_def coerce_time_def set_column_def get_cell_update)

lemma floor_ts_mult: "0 < nanos \<Longrightarrow> floor_ts nanos t = int nanos * (t div int nanos)"
  by (simp add: floor_ts_def minus_mod_eq_mult_div)

lemma floor_ts_bounds:
  assumes "0 < nanos"
  shows "floor_ts nanos t \<le> t \<and> t < floor_ts nanos t + int nanos \<and> int nanos dvd floor_ts nanos t"
proof -
  have n: "0 < int nanos" using assms by simp
  have "0 \<le> t mod int nanos" "t mod int nanos < int nanos"
    using n by (simp_all add: pos_mod_bound)
  then show ?thesis using assms by (simp add: floor_ts_def dvd_minus_mod)
qed

lemma floor_ts_mono:
  assumes "0 < nanos" and "t \<le> t'"
  shows "floor_ts nanos t \<le> floor_ts nanos t'"
proof -
  have "t div int nanos \<le> t' div int nanos" using assms by (simp add: zdiv_mono1)
  then show ?thesis using assms by (simp add: floor_ts_mult mult_left_mono)
qed

lemma floor_quarter_hour:
  "floor_ts 900000000000 (d * 86400000000000 + 36420000000000) = d * 86400000000000 + 36000000000000"
  "floor_ts 900000000000 (d * 86400000000000 + 36900000000000) = d * 86400000000000 + 36900000000000"
proof -
  have d: "d * 86400000000000 = 900000000000 * (d * 96)" by simp
  have "(900000000000 * (d * 96) + 36420000000000) mod 900000000000 = 36420000000000 mod (900000000000::int)"
    by (rule mod_mult_self4)
  then have a: "(d * 86400000000000 + 36420000000000) mod 900000000000 = 420000000000"
    by (simp only: d) simp
  have "(900000000000 * (d * 96) + 36900000000000) mod 900000000000 = 36900000000000 mod (900000000000::int)"
    by (rule mod_mult_self4)
  then have b: "(d * 86400000000000 + 36900000000000) mod 900000000000 = 0"
    by (simp only: d) simp
  show "floor_ts 900000000000 (d * 86400000000000 + 36420000000000) = d * 86400000000000 + 36000000000000"
    using a by (simp add: floor_ts_def)
  show "floor_ts 900000000000 (d * 86400000000000 + 36900000000000) = d * 86400000000000 + 36900000000000"
    using b by (simp add: floor_ts_def)
qed

lemma magnitude_in_range:
  assumes "n * unit_ns u < 2 ^ 63"
  shows "py_float n = Some n"
proof -
  have "60000000000 \<le> unit_ns u" by (cases u) (simp_all add: unit_ns_def)
  then have "n * 60000000000 \<le> n * unit_ns u" by (rule mult_le_mono2)
  with assms have "n * 60000000000 < 2 ^ 63" by linarith
  then have "n < 2 ^ 53" by simp
  then show ?thesis by (rule py_float_exact)
qed

lemma bin_data_accepted:
  assumes "re_search_digits interval = Some ds"
    and "int_of_digits ds * unit_ns (interval_unit interval) < 2 ^ 63"
    and "TIME_COLUMN \<in> set (columns df)"
  shows "bin_data p sched df interval =
           (with_bins p (int_of_digits ds * unit_ns (interval_unit interval)) df,
            summarise sched (with_bins p (int_of_digits ds * unit_ns (interval_unit interval)) df))"
  using assms magnitude_in_range[OF assms(2)]
  by (simp add: bin_data_def Let_def)

lemma bin_data_first_number:
  assumes "snd (bin_data p sched df interval) = Inr out" and "first_number interval ds"
  shows "fst (bin_data p sched df interval) =
           with_bins p (decimal ds * width_by_containment interval) df"
    and "summarise sched (with_bins p (decimal ds * width_by_containment interval) df) = Inr out"
    and "TIME_COLUMN \<in> set (columns df)"
proof -
  from assms(2) have ds: "re_search_digits interval = Some ds" by (simp add: first_number_search)
  from assms(1) obtain ds' where "re_search_digits interval = Some ds'"
    and t: "TIME_COLUMN \<in> set (columns df)"
    and "fst (bin_data p sched df interval) =
           with_bins p (int_of_digits ds' * unit_ns (interval_unit interval)) df"
    and "summarise sched (with_bins p (int_of_digits ds' * unit_ns (interval_unit interval)) df) = Inr out"
    by (rule bin_data_Inr)
  with ds show "fst (bin_data p sched df interval) =
           with_bins p (decimal ds * width_by_containment interval) df"
    and "summarise sched (with_bins p (decimal ds * width_by_containment interval) df) = Inr out"
    by (simp_all add: int_of_digits_decimal unit_width)
  from t show "TIME_COLUMN \<in> set (columns df)" .
qed

lemma bin_of_row:
  assumes "i < length (rows df)"
  shows "get_cell (rows (with_bins p nanos df) ! i) ''Bin'' =
           floor_cell nanos (to_datetime p (get_cell (rows df ! i) TIME_COLUMN))"
  using assms by (simp add: rows_with_bins get_cell_update)

lemma floor_cell_explicit:
  "0 < nanos \<Longrightarrow>
   floor_cell nanos (to_datetime p c) =
     (case to_datetime p c of Ts t \<Rightarrow> Ts (t - t mod int nanos) | _ \<Rightarrow> NaT)"
  by (simp add: floor_cell_def floor_ts_def split: cell.splits)

lemma floor_cell_zero: "floor_cell 0 (to_datetime p c) = to_datetime p c"
  by (cases c) (auto simp: floor_cell_def floor_ts_def to_datetime_def split: option.splits)

lemma bin_data_accepted_first_number:
  assumes "first_number interval ds"
    and "decimal ds * width_by_containment interval < 2 ^ 63"
    and "TIME_COLUMN \<in> set (columns df)"
  shows "bin_data p sched df interval =
           (with_bins p (decimal ds * width_by_containment interval) df,
            summarise sched (with_bins p (decimal ds * width_by_containment interval) df))"
proof -
  from assms(1) have ds: "re_search_digits interval = Some ds" by (simp add: first_number_search)
  from assms(2) have rng: "int_of_digits ds * unit_ns (interval_unit interval) < 2 ^ 63"
    by (simp add: int_of_digits_decimal unit_width)
  from bin_data_accepted[OF ds rng assms(3)] show ?thesis
    by (simp add: int_of_digits_decimal unit_width)
qed

lemma floor_two_hours:
  "floor_ts 7200000000000 (d * 86400000000000 + 36420000000000) = d * 86400000000000 + 36000000000000"
proof -
  have d: "d * 86400000000000 = 7200000000000 * (d * 12)" by simp
  have "(7200000000000 * (d * 12) + 36420000000000) mod 7200000000000 = 36420000000000 mod (7200000000000::int)"
    by (rule mod_mult_self4)
  then have a: "(d * 86400000000000 + 36420000000000) mod 7200000000000 = 420000000000"
    by (simp only: d) simp
  show ?thesis using a by (simp add: floor_ts_def)
qed

lemma floor_one_day:
  "floor_ts 86400000000000 (d * 86400000000000 + 36420000000000) = d * 86400000000000"
proof -
  have "(86400000000000 * d + 36420000000000) mod 86400000000000 = 36420000000000 mod (86400000000000::int)"
    by (rule mod_mult_self4)
  then have a: "(d * 86400000000000 + 36420000000000) mod 86400000000000 = 36420000000000"
    by (simp add: mult.commute)
  show ?thesis using a by (simp add: floor_ts_def)
qed

section \<open>Claims about the interval and the bins\<close>

text \<open>
  C10. Whenever the Binner returns a table, the interval string has a first number: it
  splits into a part without digits, a non-empty run of digits, and a rest that is
  empty or starts with a character that is no digit. The bins are cut with the decimal
  value of that run (a minus sign before it plays no part) times a width that is
  86400 seconds when the string contains \<^verbatim>\<open>day\<close>, else 3600 seconds when it contains
  \<^verbatim>\<open>hour\<close>, else 60 seconds, whatever else the string says; for a value above zero the
  \<^verbatim>\<open>Bin\<close> of each row is its coerced time less the remainder of that time by this
  length.
\<close>

theorem interval_magnitude_and_unit:
  assumes "snd (bin_data p sched df interval) = Inr out"
  shows "(\<exists>ds. first_number interval ds) \<and>
         (\<forall>ds. first_number interval ds \<longrightarrow>
            fst (bin_data p sched df interval) =
              with_bins p (decimal ds * width_by_containment interval) df \<and>
            (0 < decimal ds \<longrightarrow>
               (\<forall>i<length (rows df).
                  get_cell (rows (fst (bin_data p sched df interval)) ! i) ''Bin'' =
                    (case to_datetime p (get_cell (rows df ! i) TIME_COLUMN) of
                       Ts t \<Rightarrow> Ts (t - t mod int (decimal ds * width_by_containment interval))
                     | _ \<Rightarrow> NaT))))"
proof (intro conjI allI impI)
  from assms obtain ds where "re_search_digits interval = Some ds" by (rule bin_data_Inr)
  then show "\<exists>ds. first_number interval ds" by (auto simp: first_number_search)
next
  fix ds assume "first_number interval ds"
  from bin_data_first_number(1)[OF assms this]
  show "fst (bin_data p sched df interval) =
          with_bins p (decimal ds * width_by_containment interval) df" .
next
  fix ds i
  assume fn: "first_number interval ds" and pos: "0 < decimal ds" and i: "i < length (rows df)"
  have w: "0 < decimal ds * width_by_containment interval"
    using pos by (simp add: width_by_containment_def)
  show "get_cell (rows (fst (bin_data p sched df interval)) ! i) ''Bin'' =
          (case to_datetime p (get_cell (rows df ! i) TIME_COLUMN) of
             Ts t \<Rightarrow> Ts (t - t mod int (decimal ds * width_by_containment interval))
           | _ \<Rightarrow> NaT)"
    unfolding bin_data_first_number(1)[OF assms fn] bin_of_row[OF i]
    by (rule floor_cell_explicit[OF w])
qed


theorem interval_magnitude_and_unit_witness:
  "snd (bin_data (\<lambda>_. None) [score_mean] long_example ''15 seconds'') =
     Inr \<lparr>columns = [''Dataset'', ''Time'', ''Score''],
          rows =
            [[(''Dataset'', Str ''A''), (''Time'', Ts 1704103200000000000), (''Score'', Num 1)],
             [(''Dataset'', Str ''A''), (''Time'', Ts 1704104100000000000),
              (''Score'', Num (1 / 2))],
             [(''Dataset'', Str ''B''), (''Time'', Ts 1704103200000000000),
              (''Score'', Num (- 1))]]\<rparr> \<and>
   get_cell (rows (fst (bin_data (\<lambda>_. None) [score_mean] long_example ''15 seconds'')) ! 0)
     ''Bin'' = Ts 1704103200000000000 \<and>
   snd (bin_data (\<lambda>_. None) [score_mean] long_example ''every 2 hours'') =
     Inr \<lparr>columns = [''Dataset'', ''Time'', ''Score''],
          rows =
            [[(''Dataset'', Str ''A''), (''Time'', Ts 1704103200000000000),
              (''Score'', Num (2 / 3))],
             [(''Dataset'', Str ''B''), (''Time'', Ts 1704103200000000000),
              (''Score'', Num (- 1))]]\<rparr> \<and>
   get_cell (rows (fst (bin_data (\<lambda>_. None) [score_mean] long_example ''every 2 hours'')) ! 3)
     ''Bin'' = Ts 1704103200000000000 \<and>
   snd (bin_data (\<lambda>_. None) [score_mean] long_example ''-5 days'') =
     Inr \<lparr>columns = [''Dataset'', ''Time'', ''Score''],
          rows =
            [[(''Dataset'', Str ''A''), (''Time'', Ts 1703808000000000000),
              (''Score'', Num (2 / 3))],
             [(''Dataset'', Str ''B''), (''Time'', Ts 1703808000000000000),
              (''Score'', Num (- 1))]]\<rparr> \<and>
   get_cell (rows (fst (bin_data (\<lambda>_. None) [score_mean] long_example ''-5 days'')) ! 0)
     ''Bin'' = Ts 1703808000000000000"
  (is "?run1 \<and> ?bin1 \<and> ?run2 \<and> ?bin2 \<and> ?run3 \<and> ?bin3")
proof -
  have run1: ?run1 by (simp add: model_defs long_example_def score_mean_def)
  have run2: ?run2 by (simp add: model_defs long_example_def score_mean_def)
  have run3: ?run3 by (simp add: model_defs long_example_def score_mean_def)
  have fn1: "first_number ''15 seconds'' ''15''"
    unfolding first_number_def by (intro exI[of _ "[]"] exI[of _ "'' seconds''"]) simp
  have fn2: "first_number ''every 2 hours'' ''2''"
    unfolding first_number_def by (intro exI[of _ "''every ''"] exI[of _ "'' hours''"]) simp
  have fn3: "first_number ''-5 days'' ''5''"
    unfolding first_number_def by (intro exI[of _ "''-''"] exI[of _ "'' days''"]) simp
  have dec: "decimal ''15'' = 15" "decimal ''2'' = 2" "decimal ''5'' = 5"
    by (simp_all add: int_of_digits_decimal[symmetric] int_of_digits_def digit_val_def)
  have w: "width_by_containment ''15 seconds'' = 60000000000"
    "width_by_containment ''every 2 hours'' = 3600000000000"
    "width_by_containment ''-5 days'' = 86400000000000"
    by (simp_all add: unit_width[symmetric] interval_unit_def unit_ns_def)
  have len: "0 < length (rows long_example)" "3 < length (rows long_example)"
    by (simp_all add: long_example_def)
  note T1 = interval_magnitude_and_unit[OF run1, THEN conjunct2, rule_format, OF fn1,
      THEN conjunct2, rule_format, of 0]
  note T2 = interval_magnitude_and_unit[OF run2, THEN conjunct2, rule_format, OF fn2,
      THEN conjunct2, rule_format, of 3]
  note T3 = interval_magnitude_and_unit[OF run3, THEN conjunct2, rule_format, OF fn3,
      THEN conjunct2, rule_format, of 0]
  have bin1: ?bin1 using T1 len
    by (simp add: dec w long_example_def get_cell_def TIME_COLUMN_def to_datetime_def)
  have bin2: ?bin2 using T2 len
    by (simp add: dec w long_example_def get_cell_def TIME_COLUMN_def to_datetime_def)
  have bin3: ?bin3 using T3 len
    by (simp add: dec w long_example_def get_cell_def TIME_COLUMN_def to_datetime_def)
  from run1 bin1 run2 bin2 run3 bin3 show ?thesis by (intro conjI)
qed

text \<open>
  C4, as the code has it. The Binner refuses an interval string for its form only when
  the string has no decimal digit: then it raises \<^verbatim>\<open>ValueError\<close> before the table is
  touched, and no table is produced. A string with a digit passes the check with its
  first number as the magnitude, wherever the number stands, whatever sign precedes it
  and also when it is zero: with the time column present and the length of the interval
  within 64 bits of nanoseconds, the Binner assigns the bins for that length and
  returns what the summary of the rules returns. For the magnitude zero the \<^verbatim>\<open>Bin\<close> of
  each row is its coerced time.
\<close>

theorem interval_rejected_only_without_digit:
  "((\<forall>c\<in>set interval. c \<notin> set ''0123456789'') \<longrightarrow>
      bin_data p sched df interval = (df, Inl ValueError)) \<and>
   (\<forall>ds. first_number interval ds \<and> TIME_COLUMN \<in> set (columns df) \<and>
         decimal ds * width_by_containment interval < 2 ^ 63 \<longrightarrow>
      bin_data p sched df interval =
        (with_bins p (decimal ds * width_by_containment interval) df,
         summarise sched (with_bins p (decimal ds * width_by_containment interval) df)) \<and>
      (decimal ds = 0 \<longrightarrow>
         (\<forall>i<length (rows df).
            get_cell (rows (fst (bin_data p sched df interval)) ! i) ''Bin'' =
              to_datetime p (get_cell (rows df ! i) TIME_COLUMN))))"
proof (intro conjI allI impI)
  assume "\<forall>c\<in>set interval. c \<notin> set ''0123456789''"
  then have "re_search_digits interval = None"
    by (simp add: re_search_digits_None is_digit_iff)
  then show "bin_data p sched df interval = (df, Inl ValueError)" by (simp add: bin_data_def)
next
  fix ds
  assume "first_number interval ds \<and> TIME_COLUMN \<in> set (columns df) \<and>
         decimal ds * width_by_containment interval < 2 ^ 63"
  then show "bin_data p sched df interval =
        (with_bins p (decimal ds * width_by_containment interval) df,
         summarise sched (with_bins p (decimal ds * width_by_containment interval) df))"
    by (intro bin_data_accepted_first_number) simp_all
next
  fix ds i
  assume h: "first_number interval ds \<and> TIME_COLUMN \<in> set (columns df) \<and>
         decimal ds * width_by_containment interval < 2 ^ 63"
    and z: "decimal ds = 0" and i: "i < length (rows df)"
  from h have "bin_data p sched df interval =
        (with_bins p (decimal ds * width_by_containment interval) df,
         summarise sched (with_bins p (decimal ds * width_by_containment interval) df))"
    by (intro bin_data_accepted_first_number) simp_all
  then have "fst (bin_data p sched df interval) = with_bins p 0 df" by (simp add: z)
  then show "get_cell (rows (fst (bin_data p sched df interval)) ! i) ''Bin'' =
              to_datetime p (get_cell (rows df ! i) TIME_COLUMN)"
    by (simp add: bin_of_row[OF i] floor_cell_zero)
qed

theorem interval_rejected_only_without_digit_witness:
  "bin_data (\<lambda>_. None) SELECTED_COLUMNS long_example ''abc minutes'' =
     (long_example, Inl ValueError) \<and>
   bin_data (\<lambda>_. None) [score_mean] long_example ''-5 days'' =
     (with_bins (\<lambda>_. None) 432000000000000 long_example,
      summarise [score_mean] (with_bins (\<lambda>_. None) 432000000000000 long_example)) \<and>
   get_cell (rows (fst (bin_data (\<lambda>_. None) [score_mean] long_example ''0 hours'')) ! 2) ''Bin'' =
     Ts 1704104100000000000"
  (is "?a \<and> ?b \<and> ?c")
proof -
  have "\<forall>c\<in>set ''abc minutes''. c \<notin> set ''0123456789''" by simp
  with interval_rejected_only_without_digit[of "''abc minutes''" "\<lambda>_. None" SELECTED_COLUMNS
      long_example, THEN conjunct1]
  have a: ?a by (rule mp)
  have t: "TIME_COLUMN \<in> set (columns long_example)"
    by (simp add: TIME_COLUMN_def long_example_def)
  have fn5: "first_number ''-5 days'' ''5''"
    unfolding first_number_def by (intro exI[of _ "''-''"] exI[of _ "'' days''"]) simp
  have fn0: "first_number ''0 hours'' ''0''"
    unfolding first_number_def by (intro exI[of _ "[]"] exI[of _ "'' hours''"]) simp
  have dec: "decimal ''5'' = 5" "decimal ''0'' = 0"
    by (simp_all add: int_of_digits_decimal[symmetric] int_of_digits_def digit_val_def)
  have w: "width_by_containment ''-5 days'' = 86400000000000"
    by (simp add: unit_width[symmetric] interval_unit_def unit_ns_def)
  have h5: "first_number ''-5 days'' ''5'' \<and> TIME_COLUMN \<in> set (columns long_example) \<and>
         decimal ''5'' * width_by_containment ''-5 days'' < 2 ^ 63"
    using fn5 t by (simp add: dec w)
  have h0: "first_number ''0 hours'' ''0'' \<and> TIME_COLUMN \<in> set (columns long_example) \<and>
         decimal ''0'' * width_by_containment ''0 hours'' < 2 ^ 63"
    using fn0 t by (simp add: dec)
  from interval_rejected_only_without_digit[of "''-5 days''" "\<lambda>_. None" "[score_mean]"
      long_example, THEN conjunct2, rule_format, OF h5, THEN conjunct1]
  have b: ?b by (simp add: dec w)
  have i: "2 < length (rows long_example)" by (simp add: long_example_def)
  from interval_rejected_only_without_digit[of "''0 hours''" "\<lambda>_. None" "[score_mean]"
      long_example, THEN conjunct2, rule_format, OF h0, THEN conjunct2, rule_format,
      OF dec(2) i]
  have c: ?c by (simp add: long_example_def get_cell_def TIME_COLUMN_def to_datetime_def)
  from a b c show ?thesis by (intro conjI)
qed

text \<open>C4 as stated fails for a negative and for a zero magnitude: \<^verbatim>\<open>"-5 days"\<close> is
  accepted and binned in steps of five days, and \<^verbatim>\<open>"0 hours"\<close> is accepted and gives
  one row per device and timestamp.\<close>

theorem negative_interval_counterexample:
  "snd (bin_data (\<lambda>_. None) SELECTED_COLUMNS long_example ''-5 days'') =
     Inr \<lparr>columns = [''Dataset'', ''Time'', ''Raw Score'', ''Percent Score'', ''Temperature'',
                     ''Light'', ''Battery Voltage''],
          rows =
            [[(''Dataset'', Str ''A''), (''Time'', Ts 1703808000000000000),
              (''Raw Score'', Num (2 / 3)), (''Percent Score'', Num (250 / 3)),
              (''Temperature'', Num (64 / 3)), (''Light'', Num (16 / 3)),
              (''Battery Voltage'', Num 3)],
             [(''Dataset'', Str ''B''), (''Time'', Ts 1703808000000000000),
              (''Raw Score'', Num (- 1)), (''Percent Score'', Num 0), (''Temperature'', NaN),
              (''Light'', Num 7), (''Battery Voltage'', Num 3)]]\<rparr> \<and>
   snd (bin_data (\<lambda>_. None) SELECTED_COLUMNS long_example ''0 hours'') =
     Inr \<lparr>columns = [''Dataset'', ''Time'', ''Raw Score'', ''Percent Score'', ''Temperature'',
                     ''Light'', ''Battery Voltage''],
          rows =
            [[(''Dataset'', Str ''A''), (''Time'', Ts 1704103620000000000),
              (''Raw Score'', Num 1), (''Percent Score'', Num 100), (''Temperature'', Num 20),
              (''Light'', Num 5), (''Battery Voltage'', Num 3)],
             [(''Dataset'', Str ''A''), (''Time'', Ts 1704104100000000000),
              (''Raw Score'', Num 0), (''Percent Score'', Num 50), (''Temperature'', Num 21),
              (''Light'', Num 5), (''Battery Voltage'', Num 3)],
             [(''Dataset'', Str ''A''), (''Time'', Ts 1704104160000000000),
              (''Raw Score'', Num 1), (''Percent Score'', Num 100), (''Temperature'', Num 23),
              (''Light'', Num 6), (''Battery Voltage'', Num 3)],
             [(''Dataset'', Str ''B''), (''Time'', Ts 1704103620000000000),
              (''Raw Score'', Num (- 1)), (''Percent Score'', Num 0), (''Temperature'', NaN),
              (''Light'', Num 7), (''Battery Voltage'', Num 3)]]\<rparr>"
  by (simp add: model_defs long_example_def)

text \<open>
  C2. Let the interval string have the first number \<open>ds\<close> and let \<open>nanos\<close>, the decimal
  value of \<open>ds\<close> times 86400, 3600 or 60 seconds as the string contains \<^verbatim>\<open>day\<close>, else
  \<^verbatim>\<open>hour\<close>, else neither, be positive. When the Binner returns a table, the frame it
  was given has as many rows as before and the \<^verbatim>\<open>Bin\<close> of each row is the floor of that
  row's own coerced time, a function of this one cell: the time less its remainder by
  \<open>nanos\<close>. The floor of a time is at most the time, less than one interval below it,
  a multiple of the interval, and monotonic. With \<^verbatim>\<open>"15 minutes"\<close>, 10:07 of any day
  goes to 10:00 and 10:15:00 to 10:15; with \<^verbatim>\<open>"2 hours"\<close>, 10:07 goes to 10:00; with
  \<^verbatim>\<open>"1 day"\<close>, 10:07 goes to midnight.
\<close>

theorem bin_start_floors_derived_time:
  assumes "snd (bin_data p sched df interval) = Inr out"
    and "first_number interval ds"
    and "nanos = decimal ds * width_by_containment interval"
    and "0 < nanos"
  shows "length (rows (fst (bin_data p sched df interval))) = length (rows df) \<and>
         (\<forall>i<length (rows df).
            get_cell (rows (fst (bin_data p sched df interval)) ! i) ''Bin'' =
              floor_cell nanos (to_datetime p (get_cell (rows df ! i) TIME_COLUMN)) \<and>
            get_cell (rows (fst (bin_data p sched df interval)) ! i) ''Bin'' =
              (case to_datetime p (get_cell (rows df ! i) TIME_COLUMN) of
                 Ts t \<Rightarrow> Ts (t - t mod int nanos)
               | _ \<Rightarrow> NaT)) \<and>
         (\<forall>t. floor_ts nanos t = t - t mod int nanos \<and>
              floor_ts nanos t \<le> t \<and> t < floor_ts nanos t + int nanos \<and>
              int nanos dvd floor_ts nanos t) \<and>
         (\<forall>t t'. t \<le> t' \<longrightarrow> floor_ts nanos t \<le> floor_ts nanos t') \<and>
         (interval = ''15 minutes'' \<longrightarrow>
            (\<forall>d. floor_ts nanos (d * 86400000000000 + 36420000000000) =
                   d * 86400000000000 + 36000000000000 \<and>
                 floor_ts nanos (d * 86400000000000 + 36900000000000) =
                   d * 86400000000000 + 36900000000000)) \<and>
         (interval = ''2 hours'' \<longrightarrow>
            (\<forall>d. floor_ts nanos (d * 86400000000000 + 36420000000000) =
                   d * 86400000000000 + 36000000000000)) \<and>
         (interval = ''1 day'' \<longrightarrow>
            (\<forall>d. floor_ts nanos (d * 86400000000000 + 36420000000000) =
                   d * 86400000000000))"
proof -
  have fst_eq: "fst (bin_data p sched df interval) = with_bins p nanos df"
    using bin_data_first_number(1)[OF assms(1,2)] assms(3) by simp
  from assms(2) have search: "re_search_digits interval = Some ds"
    by (simp add: first_number_search)
  have nanos: "nanos = int_of_digits ds * unit_ns (interval_unit interval)"
    by (simp add: assms(3) int_of_digits_decimal unit_width)
  have len: "length (rows (fst (bin_data p sched df interval))) = length (rows df)"
    by (simp add: fst_eq rows_with_bins)
  have bins: "\<forall>i<length (rows df).
            get_cell (rows (fst (bin_data p sched df interval)) ! i) ''Bin'' =
              floor_cell nanos (to_datetime p (get_cell (rows df ! i) TIME_COLUMN)) \<and>
            get_cell (rows (fst (bin_data p sched df interval)) ! i) ''Bin'' =
              (case to_datetime p (get_cell (rows df ! i) TIME_COLUMN) of
                 Ts t \<Rightarrow> Ts (t - t mod int nanos)
               | _ \<Rightarrow> NaT)"
    using floor_cell_explicit[OF assms(4), of p] by (simp add: fst_eq bin_of_row)
  have bounds: "\<forall>t. floor_ts nanos t = t - t mod int nanos \<and>
              floor_ts nanos t \<le> t \<and> t < floor_ts nanos t + int nanos \<and>
              int nanos dvd floor_ts nanos t"
    using floor_ts_bounds[OF assms(4)] assms(4) by (simp add: floor_ts_def)
  have mono: "\<forall>t t'. t \<le> t' \<longrightarrow> floor_ts nanos t \<le> floor_ts nanos t'"
    using floor_ts_mono[OF assms(4)] by blast
  have quarter: "interval = ''15 minutes'' \<longrightarrow>
            (\<forall>d. floor_ts nanos (d * 86400000000000 + 36420000000000) =
                   d * 86400000000000 + 36000000000000 \<and>
                 floor_ts nanos (d * 86400000000000 + 36900000000000) =
                   d * 86400000000000 + 36900000000000)"
  proof
    assume i: "interval = ''15 minutes''"
    with search have "ds = ''15''"
      by (simp add: re_search_digits_def is_digit_def)
    with i nanos have "nanos = 900000000000"
      by (simp add: int_of_digits_def digit_val_def interval_unit_def unit_ns_def)
    then show "\<forall>d. floor_ts nanos (d * 86400000000000 + 36420000000000) =
                   d * 86400000000000 + 36000000000000 \<and>
                 floor_ts nanos (d * 86400000000000 + 36900000000000) =
                   d * 86400000000000 + 36900000000000"
      using floor_quarter_hour by simp
  qed
  have hours: "interval = ''2 hours'' \<longrightarrow>
            (\<forall>d. floor_ts nanos (d * 86400000000000 + 36420000000000) =
                   d * 86400000000000 + 36000000000000)"
  proof
    assume i: "interval = ''2 hours''"
    with search have "ds = ''2''"
      by (simp add: re_search_digits_def is_digit_def)
    with i nanos have "nanos = 7200000000000"
      by (simp add: int_of_digits_def digit_val_def interval_unit_def unit_ns_def)
    then show "\<forall>d. floor_ts nanos (d * 86400000000000 + 36420000000000) =
                   d * 86400000000000 + 36000000000000"
      using floor_two_hours by simp
  qed
  have day: "interval = ''1 day'' \<longrightarrow>
            (\<forall>d. floor_ts nanos (d * 86400000000000 + 36420000000000) =
                   d * 86400000000000)"
  proof
    assume i: "interval = ''1 day''"
    with search have "ds = ''1''"
      by (simp add: re_search_digits_def is_digit_def)
    with i nanos have "nanos = 86400000000000"
      by (simp add: int_of_digits_def digit_val_def interval_unit_def unit_ns_def)
    then show "\<forall>d. floor_ts nanos (d * 86400000000000 + 36420000000000) =
                   d * 86400000000000"
      using floor_one_day by simp
  qed
  from len bins bounds mono quarter hours day show ?thesis by (intro conjI)
qed


theorem bin_start_floors_derived_time_witness:
  "snd (bin_data (\<lambda>_. None) SELECTED_COLUMNS long_example ''15 minutes'') =
     Inr \<lparr>columns = [''Dataset'', ''Time'', ''Raw Score'', ''Percent Score'', ''Temperature'',
                     ''Light'', ''Battery Voltage''],
          rows =
            [[(''Dataset'', Str ''A''), (''Time'', Ts 1704103200000000000),
              (''Raw Score'', Num 1), (''Percent Score'', Num 100), (''Temperature'', Num 20),
              (''Light'', Num 5), (''Battery Voltage'', Num 3)],
             [(''Dataset'', Str ''A''), (''Time'', Ts 1704104100000000000),
              (''Raw Score'', Num (1 / 2)), (''Percent Score'', Num 75),
              (''Temperature'', Num 22), (''Light'', Num (11 / 2)),
              (''Battery Voltage'', Num 3)],
             [(''Dataset'', Str ''B''), (''Time'', Ts 1704103200000000000),
              (''Raw Score'', Num (- 1)), (''Percent Score'', Num 0), (''Temperature'', NaN),
              (''Light'', Num 7), (''Battery Voltage'', Num 3)]]\<rparr> \<and>
   length (rows (fst (bin_data (\<lambda>_. None) SELECTED_COLUMNS long_example ''15 minutes''))) = 4 \<and>
   get_cell (rows (fst (bin_data (\<lambda>_. None) SELECTED_COLUMNS long_example ''15 minutes'')) ! 0)
     ''Bin'' = Ts 1704103200000000000 \<and>
   get_cell (rows (fst (bin_data (\<lambda>_. None) SELECTED_COLUMNS long_example ''15 minutes'')) ! 2)
     ''Bin'' = Ts 1704104100000000000 \<and>
   floor_ts 900000000000 1704103620000000000 = 1704103200000000000 \<and>
   floor_ts 900000000000 1704104100000000000 = 1704104100000000000 \<and>
   snd (bin_data (\<lambda>_. None) [score_mean] long_example ''2 hours'') =
     Inr \<lparr>columns = [''Dataset'', ''Time'', ''Score''],
          rows =
            [[(''Dataset'', Str ''A''), (''Time'', Ts 1704103200000000000),
              (''Score'', Num (2 / 3))],
             [(''Dataset'', Str ''B''), (''Time'', Ts 1704103200000000000),
              (''Score'', Num (- 1))]]\<rparr> \<and>
   get_cell (rows (fst (bin_data (\<lambda>_. None) [score_mean] long_example ''2 hours'')) ! 2)
     ''Bin'' = Ts 1704103200000000000 \<and>
   floor_ts 7200000000000 1704103620000000000 = 1704103200000000000 \<and>
   snd (bin_data (\<lambda>_. None) [score_mean] long_example ''1 day'') =
     Inr \<lparr>columns = [''Dataset'', ''Time'', ''Score''],
          rows =
            [[(''Dataset'', Str ''A''), (''Time'', Ts 1704067200000000000),
              (''Score'', Num (2 / 3))],
             [(''Dataset'', Str ''B''), (''Time'', Ts 1704067200000000000),
              (''Score'', Num (- 1))]]\<rparr> \<and>
   get_cell (rows (fst (bin_data (\<lambda>_. None) [score_mean] long_example ''1 day'')) ! 2)
     ''Bin'' = Ts 1704067200000000000 \<and>
   floor_ts 86400000000000 1704103620000000000 = 1704067200000000000"
  (is "?run \<and> ?len \<and> ?b0 \<and> ?b2 \<and> ?f0 \<and> ?f2 \<and> ?runh \<and> ?bh \<and> ?fh \<and> ?rund \<and> ?bd \<and> ?fd")
proof -
  have run: ?run by (simp add: model_defs long_example_def)
  have runh: ?runh by (simp add: model_defs long_example_def score_mean_def)
  have rund: ?rund by (simp add: model_defs long_example_def score_mean_def)
  have fn: "first_number ''15 minutes'' ''15''"
    unfolding first_number_def by (intro exI[of _ "[]"] exI[of _ "'' minutes''"]) simp
  have fnh: "first_number ''2 hours'' ''2''"
    unfolding first_number_def by (intro exI[of _ "[]"] exI[of _ "'' hours''"]) simp
  have fnd: "first_number ''1 day'' ''1''"
    unfolding first_number_def by (intro exI[of _ "[]"] exI[of _ "'' day''"]) simp
  have dec: "decimal ''15'' = 15" "decimal ''2'' = 2" "decimal ''1'' = 1"
    by (simp_all add: int_of_digits_decimal[symmetric] int_of_digits_def digit_val_def)
  have w: "width_by_containment ''15 minutes'' = 60000000000"
    "width_by_containment ''2 hours'' = 3600000000000"
    "width_by_containment ''1 day'' = 86400000000000"
    by (simp_all add: unit_width[symmetric] interval_unit_def unit_ns_def)
  have nanos: "900000000000 = decimal ''15'' * width_by_containment ''15 minutes''"
    by (simp add: dec w)
  have nanosh: "7200000000000 = decimal ''2'' * width_by_containment ''2 hours''"
    by (simp add: dec w)
  have nanosd: "86400000000000 = decimal ''1'' * width_by_containment ''1 day''"
    by (simp add: dec w)
  have pos: "0 < (900000000000::nat)" "0 < (7200000000000::nat)" "0 < (86400000000000::nat)"
    by simp_all
  note T = bin_start_floors_derived_time[OF run fn nanos pos(1)]
  note Th = bin_start_floors_derived_time[OF runh fnh nanosh pos(2)]
  note Td = bin_start_floors_derived_time[OF rund fnd nanosd pos(3)]
  from T[THEN conjunct1] have len: ?len by (simp add: long_example_def)
  note q = T[THEN conjunct2, THEN conjunct2, THEN conjunct2, THEN conjunct2, THEN conjunct1,
      rule_format, OF refl, of 19723]
  from q have f0: ?f0 and f2: ?f2 by simp_all
  note qh = Th[THEN conjunct2, THEN conjunct2, THEN conjunct2, THEN conjunct2, THEN conjunct2,
      THEN conjunct1, rule_format, OF refl, of 19723]
  from qh have fh: ?fh by simp
  note qd = Td[THEN conjunct2, THEN conjunct2, THEN conjunct2, THEN conjunct2, THEN conjunct2,
      THEN conjunct2, rule_format, OF refl, of 19723]
  from qd have fd: ?fd by simp
  have l: "0 < length (rows long_example)" "2 < length (rows long_example)"
    by (simp_all add: long_example_def)
  note B0 = T[THEN conjunct2, THEN conjunct1, rule_format, OF l(1), THEN conjunct2]
  note B2 = T[THEN conjunct2, THEN conjunct1, rule_format, OF l(2), THEN conjunct2]
  note Bh = Th[THEN conjunct2, THEN conjunct1, rule_format, OF l(2), THEN conjunct2]
  note Bd = Td[THEN conjunct2, THEN conjunct1, rule_format, OF l(2), THEN conjunct2]
  have b0: ?b0 using B0
    by (simp add: long_example_def get_cell_def TIME_COLUMN_def to_datetime_def)
  have b2: ?b2 using B2
    by (simp add: long_example_def get_cell_def TIME_COLUMN_def to_datetime_def)
  have bh: ?bh using Bh
    by (simp add: long_example_def get_cell_def TIME_COLUMN_def to_datetime_def)
  have bd: ?bd using Bd
    by (simp add: long_example_def get_cell_def TIME_COLUMN_def to_datetime_def)
  from run len b0 b2 f0 f2 runh bh fh rund bd fd show ?thesis by (intro conjI)
qed

lemma num_values_isna: "\<forall>c\<in>set cs. isna c \<Longrightarrow> num_values cs = []"
  by (induction cs rule: num_values.induct) auto

lemma is_float_iff: "is_float c \<longleftrightarrow> c = NaN \<or> (\<exists>x. c = Num x)"
  by (cases c) simp_all

lemma float_columns_iff:
  "list_all (float_column df) cols \<longleftrightarrow>
     (\<forall>c\<in>set cols. \<forall>r\<in>set (rows df). get_cell r c = NaN \<or> (\<exists>x. get_cell r c = Num x))"
  by (simp add: float_column_def list_all_iff is_float_iff)

text \<open>
  C3, as the code has it. Take a group whose cells in the rule's columns are all
  missing. When the columns are columns of the table and numeric, each cell of the table
  in them a number or \<open>NaN\<close>, \<^verbatim>\<open>agg_func\<close> returns \<open>NaN\<close> whatever the reducer, \<^verbatim>\<open>sum\<close>
  included: the test \<^verbatim>\<open>vals.size == 0\<close> comes before the reducers. When the columns are
  there and one of them holds a cell of another kind, such as the \<^verbatim>\<open>None\<close> that the
  Reshaper writes for a column it does not find, \<^verbatim>\<open>np.isnan\<close> raises \<^verbatim>\<open>TypeError\<close>. When
  one of the columns is not a column of the table, the selection raises \<^verbatim>\<open>KeyError\<close>.
  No case gives zero.
\<close>

theorem empty_group_yields_missing:
  assumes "\<forall>r\<in>set subdf. \<forall>c\<in>set cols. isna (get_cell r c)"
  shows "(set cols \<subseteq> set (columns df) \<and>
          (\<forall>c\<in>set cols. \<forall>r\<in>set (rows df). get_cell r c = NaN \<or> (\<exists>x. get_cell r c = Num x)) \<longrightarrow>
            agg_func df cols agg subdf = Inr NaN) \<and>
         (set cols \<subseteq> set (columns df) \<and>
          (\<exists>c\<in>set cols. \<exists>r\<in>set (rows df). get_cell r c \<noteq> NaN \<and> (\<forall>x. get_cell r c \<noteq> Num x)) \<longrightarrow>
            agg_func df cols agg subdf = Inl TypeError) \<and>
         (\<not> set cols \<subseteq> set (columns df) \<longrightarrow> agg_func df cols agg subdf = Inl KeyError) \<and>
         agg_func df cols agg subdf \<noteq> Inr (Num 0)"
proof -
  from assms have v: "num_values (concat (map (\<lambda>r. map (get_cell r) cols) subdf)) = []"
    by (intro num_values_isna) auto
  have k: "list_all (\<lambda>c. c \<in> set (columns df)) cols \<longleftrightarrow> set cols \<subseteq> set (columns df)"
    by (auto simp: list_all_iff)
  have 1: "set cols \<subseteq> set (columns df) \<and>
          (\<forall>c\<in>set cols. \<forall>r\<in>set (rows df). get_cell r c = NaN \<or> (\<exists>x. get_cell r c = Num x)) \<longrightarrow>
            agg_func df cols agg subdf = Inr NaN"
    using v by (simp add: agg_func_def k float_columns_iff)
  have 2: "set cols \<subseteq> set (columns df) \<and>
          (\<exists>c\<in>set cols. \<exists>r\<in>set (rows df). get_cell r c \<noteq> NaN \<and> (\<forall>x. get_cell r c \<noteq> Num x)) \<longrightarrow>
            agg_func df cols agg subdf = Inl TypeError"
  proof
    assume h: "set cols \<subseteq> set (columns df) \<and>
          (\<exists>c\<in>set cols. \<exists>r\<in>set (rows df). get_cell r c \<noteq> NaN \<and> (\<forall>x. get_cell r c \<noteq> Num x))"
    then have "\<not> list_all (float_column df) cols" unfolding float_columns_iff by blast
    with h show "agg_func df cols agg subdf = Inl TypeError" by (simp add: agg_func_def k)
  qed
  have 3: "\<not> set cols \<subseteq> set (columns df) \<longrightarrow> agg_func df cols agg subdf = Inl KeyError"
    by (simp add: agg_func_def k)
  have 4: "agg_func df cols agg subdf \<noteq> Inr (Num 0)"
    using v by (simp add: agg_func_def)
  from 1 2 3 4 show ?thesis by (intro conjI)
qed

theorem empty_group_yields_missing_witness:
  "agg_func long_example [''T''] ''sum''
     [[(''Dataset'', Str ''B''), (''Time'', Ts 1704103620000000000), (''Act'', Num (-1)),
       (''T'', NaN), (''Light'', Num 7), (''Vbat'', Num 3)]] = Inr NaN \<and>
   agg_func
     \<lparr>columns = [''Dataset'', ''Time'', ''Act'', ''T'', ''Light'', ''Vbat''],
      rows = [[(''Dataset'', Str ''B''), (''Time'', Ts 1704103620000000000), (''Act'', Num 1),
               (''T'', PyNone), (''Light'', PyNone), (''Vbat'', PyNone)]]\<rparr>
     [''T''] ''mean''
     [[(''Dataset'', Str ''B''), (''Time'', Ts 1704103620000000000), (''Act'', Num 1),
       (''T'', PyNone), (''Light'', PyNone), (''Vbat'', PyNone)]] = Inl TypeError \<and>
   agg_func long_example [''Humidity''] ''sum''
     [[(''Dataset'', Str ''B''), (''Time'', Ts 1704103620000000000), (''Act'', Num (-1)),
       (''T'', NaN), (''Light'', Num 7), (''Vbat'', Num 3)]] = Inl KeyError"
  (is "?a \<and> ?b \<and> ?c")
proof -
  have 1: "\<forall>r\<in>set [[(''Dataset'', Str ''B''), (''Time'', Ts 1704103620000000000),
              (''Act'', Num (-1)), (''T'', NaN), (''Light'', Num 7), (''Vbat'', Num 3)]].
             \<forall>c\<in>set [''T'']. isna (get_cell r c)"
    by (simp add: get_cell_def)
  have 2: "\<forall>r\<in>set [[(''Dataset'', Str ''B''), (''Time'', Ts 1704103620000000000),
              (''Act'', Num 1), (''T'', PyNone), (''Light'', PyNone), (''Vbat'', PyNone)]].
             \<forall>c\<in>set [''T'']. isna (get_cell r c)"
    by (simp add: get_cell_def)
  have 3: "\<forall>r\<in>set [[(''Dataset'', Str ''B''), (''Time'', Ts 1704103620000000000),
              (''Act'', Num (-1)), (''T'', NaN), (''Light'', Num 7), (''Vbat'', Num 3)]].
             \<forall>c\<in>set [''Humidity'']. isna (get_cell r c)"
    by (simp add: get_cell_def)
  have a: ?a
    by (rule empty_group_yields_missing[OF 1, THEN conjunct1, rule_format])
       (simp add: long_example_def get_cell_def)
  have b: ?b
    by (rule empty_group_yields_missing[OF 2, THEN conjunct2, THEN conjunct1, rule_format])
       (simp add: get_cell_def)
  have c: ?c
    by (rule empty_group_yields_missing[OF 3, THEN conjunct2, THEN conjunct2, THEN conjunct1,
          rule_format])
       (simp add: long_example_def)
  from a b c show ?thesis by (intro conjI)
qed

text \<open>C3 as stated fails for \<^verbatim>\<open>sum\<close>: device \<^verbatim>\<open>B\<close> has no temperature in its bin, and the
  sum over that bin is \<open>NaN\<close>, not zero.\<close>

theorem sum_of_empty_group_counterexample:
  "snd (bin_data (\<lambda>_. None)
          [(1, \<lparr>cfg_name = Some ''Total'', cfg_summarize = Some ''sum'',
                cfg_columns = Some [''T'']\<rparr>)]
          long_example ''15 minutes'') =
     Inr \<lparr>columns = [''Dataset'', ''Time'', ''Total''],
          rows =
            [[(''Dataset'', Str ''A''), (''Time'', Ts 1704103200000000000), (''Total'', Num 20)],
             [(''Dataset'', Str ''A''), (''Time'', Ts 1704104100000000000), (''Total'', Num 44)],
             [(''Dataset'', Str ''B''), (''Time'', Ts 1704103200000000000), (''Total'', NaN)]]\<rparr>"
  by (simp add: model_defs long_example_def)

section \<open>What the stages do to their argument\<close>

lemma coerce_time_columns:
  "TIME_COLUMN \<in> set (columns df) \<Longrightarrow> columns (coerce_time p df) = columns df"
  by (simp add: coerce_time_def set_column_def)

lemma coerce_time_rows:
  "rows (coerce_time p df) =
     map (\<lambda>r. AList.update TIME_COLUMN (to_datetime p (get_cell r TIME_COLUMN)) r) (rows df)"
  by (simp add: coerce_time_def set_column_def)

lemma with_bins_columns:
  "TIME_COLUMN \<in> set (columns df) \<Longrightarrow>
   columns (with_bins p nanos df) =
     (if ''Bin'' \<in> set (columns df) then columns df else columns df @ [''Bin''])"
  by (simp add: with_bins_def set_column_def coerce_time_columns)

lemma fst_melt_activity_data:
  "fst (melt_activity_data p df) =
     (if TIME_COLUMN \<in> set (columns df) then coerce_time p df else df)"
  by (simp add: melt_activity_data_def Let_def split: sum.splits)

lemma fst_bin_data:
  "fst (bin_data p sched df interval) = df \<or>
   TIME_COLUMN \<in> set (columns df) \<and>
     (fst (bin_data p sched df interval) = coerce_time p df \<or>
      (\<exists>nanos. fst (bin_data p sched df interval) = with_bins p nanos df))"
  by (auto simp: bin_data_def Let_def split: option.splits)

lemma to_datetime_idem: "to_datetime p (to_datetime p c) = to_datetime p c"
  by (cases c) (auto simp: to_datetime_def split: option.splits)


text \<open>
  C7, as the code has it. Both stages assign to the frame they are given. The Reshaper
  overwrites the time column with the coerced timestamps; labels, the number of rows and
  every other cell stay. The Binner keeps the rows and every cell outside the columns
  \<^verbatim>\<open>Time\<close> and \<^verbatim>\<open>Bin\<close>, and adds at most the label \<^verbatim>\<open>Bin\<close>; when it returns a table,
  the frame it was given has the column \<^verbatim>\<open>Bin\<close> and its time column is coerced.
\<close>

theorem stages_assign_time_and_bin:
  "columns (fst (melt_activity_data p df)) = columns df \<and>
   length (rows (fst (melt_activity_data p df))) = length (rows df) \<and>
   (\<forall>i<length (rows df). \<forall>c.
      get_cell (rows (fst (melt_activity_data p df)) ! i) c =
        (if c = TIME_COLUMN \<and> TIME_COLUMN \<in> set (columns df)
         then to_datetime p (get_cell (rows df ! i) c) else get_cell (rows df ! i) c)) \<and>
   (columns (fst (bin_data p sched df interval)) = columns df \<or>
    columns (fst (bin_data p sched df interval)) = columns df @ [''Bin'']) \<and>
   length (rows (fst (bin_data p sched df interval))) = length (rows df) \<and>
   (\<forall>i<length (rows df). \<forall>c. c \<noteq> TIME_COLUMN \<and> c \<noteq> ''Bin'' \<longrightarrow>
      get_cell (rows (fst (bin_data p sched df interval)) ! i) c = get_cell (rows df ! i) c) \<and>
   (\<forall>out. snd (bin_data p sched df interval) = Inr out \<longrightarrow>
      ''Bin'' \<in> set (columns (fst (bin_data p sched df interval))) \<and>
      (\<forall>i<length (rows df).
         get_cell (rows (fst (bin_data p sched df interval)) ! i) TIME_COLUMN =
           to_datetime p (get_cell (rows df ! i) TIME_COLUMN)))"
proof -
  let ?M = "fst (melt_activity_data p df)" and ?B = "fst (bin_data p sched df interval)"
  have m1: "columns ?M = columns df"
    by (simp add: fst_melt_activity_data coerce_time_columns)
  have m2: "length (rows ?M) = length (rows df)"
    by (simp add: fst_melt_activity_data coerce_time_rows)
  have m3: "\<forall>i<length (rows df). \<forall>c.
      get_cell (rows ?M ! i) c =
        (if c = TIME_COLUMN \<and> TIME_COLUMN \<in> set (columns df)
         then to_datetime p (get_cell (rows df ! i) c) else get_cell (rows df ! i) c)"
    by (simp add: fst_melt_activity_data coerce_time_rows get_cell_update)
  have b1: "columns ?B = columns df \<or> columns ?B = columns df @ [''Bin'']"
    using fst_bin_data[of p sched df interval]
    by (auto simp: coerce_time_columns with_bins_columns split: if_splits)
  have b2: "length (rows ?B) = length (rows df)"
    using fst_bin_data[of p sched df interval]
    by (auto simp: coerce_time_rows rows_with_bins)
  have b3: "\<forall>i<length (rows df). \<forall>c. c \<noteq> TIME_COLUMN \<and> c \<noteq> ''Bin'' \<longrightarrow>
      get_cell (rows ?B ! i) c = get_cell (rows df ! i) c"
    using fst_bin_data[of p sched df interval]
    by (auto simp: coerce_time_rows rows_with_bins get_cell_update)
  have b4: "\<forall>out. snd (bin_data p sched df interval) = Inr out \<longrightarrow>
      ''Bin'' \<in> set (columns ?B) \<and>
      (\<forall>i<length (rows df).
         get_cell (rows ?B ! i) TIME_COLUMN = to_datetime p (get_cell (rows df ! i) TIME_COLUMN))"
  proof (intro allI impI)
    fix out assume "snd (bin_data p sched df interval) = Inr out"
    then obtain ds where t: "TIME_COLUMN \<in> set (columns df)"
      and f: "?B = with_bins p (int_of_digits ds * unit_ns (interval_unit interval)) df"
      by (rule bin_data_Inr)
    show "''Bin'' \<in> set (columns ?B) \<and>
      (\<forall>i<length (rows df).
         get_cell (rows ?B ! i) TIME_COLUMN = to_datetime p (get_cell (rows df ! i) TIME_COLUMN))"
      by (simp add: f with_bins_columns[OF t] rows_with_bins get_cell_update TIME_COLUMN_def)
  qed
  from m1 m2 m3 b1 b2 b3 b4 show ?thesis by (intro conjI)
qed

theorem stages_assign_time_and_bin_witness:
  "get_cell (rows (fst (melt_activity_data parse_example wide_example)) ! 0) ''Time'' =
     Ts 1704103620000000000 \<and>
   get_cell (rows (fst (melt_activity_data parse_example wide_example)) ! 2) ''Time'' = NaT \<and>
   get_cell (rows (fst (melt_activity_data parse_example wide_example)) ! 2) ''Act[1]'' = Num 1 \<and>
   get_cell (rows (fst (bin_data (\<lambda>_. None) SELECTED_COLUMNS long_example ''15 minutes'')) ! 1)
     ''T'' = NaN"
proof -
  note T = stages_assign_time_and_bin[of parse_example wide_example]
  note U = stages_assign_time_and_bin[of "\<lambda>_. None" long_example SELECTED_COLUMNS
      "''15 minutes''"]
  from T have m: "\<forall>i<length (rows wide_example). \<forall>c.
      get_cell (rows (fst (melt_activity_data parse_example wide_example)) ! i) c =
        (if c = TIME_COLUMN \<and> TIME_COLUMN \<in> set (columns wide_example)
         then to_datetime parse_example (get_cell (rows wide_example ! i) c)
         else get_cell (rows wide_example ! i) c)"
    by (rule conjunct1[OF conjunct2[OF conjunct2]])
  from U have b: "\<forall>i<length (rows long_example). \<forall>c. c \<noteq> TIME_COLUMN \<and> c \<noteq> ''Bin'' \<longrightarrow>
      get_cell (rows (fst (bin_data (\<lambda>_. None) SELECTED_COLUMNS long_example ''15 minutes'')) ! i) c =
        get_cell (rows long_example ! i) c"
    by (rule conjunct1[OF conjunct2[OF conjunct2[OF conjunct2[OF conjunct2[OF conjunct2]]]]])
  have 1: "get_cell (rows (fst (melt_activity_data parse_example wide_example)) ! 0) ''Time'' =
     Ts 1704103620000000000"
    using m[rule_format, of 0 "''Time''"]
    by (simp add: wide_example_def TIME_COLUMN_def get_cell_def to_datetime_def parse_example_def)
  have 2: "get_cell (rows (fst (melt_activity_data parse_example wide_example)) ! 2) ''Time'' = NaT"
    using m[rule_format, of 2 "''Time''"]
    by (simp add: wide_example_def TIME_COLUMN_def get_cell_def to_datetime_def parse_example_def)
  have 3: "get_cell (rows (fst (melt_activity_data parse_example wide_example)) ! 2) ''Act[1]'' = Num 1"
    using m[rule_format, of 2 "''Act[1]''"]
    by (simp add: wide_example_def TIME_COLUMN_def get_cell_def)
  have 4: "get_cell (rows (fst (bin_data (\<lambda>_. None) SELECTED_COLUMNS long_example ''15 minutes'')) ! 1)
     ''T'' = NaN"
    using b[rule_format, of 1 "''T''"]
    by (simp add: long_example_def TIME_COLUMN_def get_cell_def)
  from 1 2 3 4 show ?thesis by (intro conjI)
qed

text \<open>C7 as stated fails for both stages: the Reshaper leaves timestamps where its
  argument had strings, and the Binner leaves its argument with one more column.\<close>

theorem input_is_mutated_counterexample:
  "fst (melt_activity_data parse_example wide_example) =
     \<lparr>columns = [''Dataset'', ''Time'', ''Act[0]'', ''Act[1]'', ''Act[2]'', ''T'', ''Light'',
                 ''Vbat''],
      rows =
        [[(''Dataset'', Str ''B''), (''Time'', Ts 1704103620000000000),
          (''Act[0]'', Num 1), (''Act[1]'', NaN), (''Act[2]'', Num (-1)),
          (''T'', Num 20), (''Light'', Num 5), (''Vbat'', Num 3)],
         [(''Dataset'', Str ''A''), (''Time'', Ts 1704103680000000000),
          (''Act[0]'', Num 1), (''Act[1]'', Num 0), (''Act[2]'', Num (-1)),
          (''T'', Num 21), (''Light'', NaN), (''Vbat'', Num 3)],
         [(''Dataset'', Str ''A''), (''Time'', NaT),
          (''Act[0]'', Num 1), (''Act[1]'', Num 1), (''Act[2]'', NaN),
          (''T'', Num 22), (''Light'', Num 6), (''Vbat'', Num 3)]]\<rparr> \<and>
   fst (melt_activity_data parse_example wide_example) \<noteq> wide_example \<and>
   columns (fst (bin_data (\<lambda>_. None) SELECTED_COLUMNS long_example ''15 minutes'')) =
     [''Dataset'', ''Time'', ''Act'', ''T'', ''Light'', ''Vbat'', ''Bin''] \<and>
   fst (bin_data (\<lambda>_. None) SELECTED_COLUMNS long_example ''15 minutes'') \<noteq> long_example"
  by (simp add: fst_melt_activity_data with_bins_columns bin_data_def Let_def
      re_search_digits_def is_digit_def int_of_digits_def digit_val_def py_float_def
      interval_unit_def unit_ns_def coerce_time_def set_column_def TIME_COLUMN_def
      get_cell_def to_datetime_def parse_example_def wide_example_def long_example_def
      with_bins_def)

section \<open>Loops that may raise\<close>


lemma traverse_Inr:
  "traverse f xs = Inr ys \<Longrightarrow> list_all2 (\<lambda>x y. f x = Inr y) xs ys"
  by (induction xs arbitrary: ys) (auto split: sum.splits)


section \<open>Missing columns\<close>

lemma bin_key_with_bins:
  "bin_key (AList.update ''Bin'' b (AList.update TIME_COLUMN t r)) = (get_cell r DELINEATING_COL, b)"
  by (simp add: bin_key_def get_cell_update DELINEATING_COL_def TIME_COLUMN_def)



section \<open>The summaries and their join\<close>

lemma list_all2_fun: "list_all2 (\<lambda>x y. y = h x) xs ys \<Longrightarrow> ys = map h xs"
  by (induction xs ys rule: list_all2_induct) auto

lemma group_keys_distinct: "distinct (group_keys df)"
  by (simp add: group_keys_def)

lemma group_keys_set:
  "set (group_keys df) = {k \<in> bin_key ` set (rows df). valid_key k}"
  by (auto simp: group_keys_def)


lemma rule_summary_Inr:
  assumes "rule_summary df rule = Inr s"
  shows "s = summary_of df rule"
proof -
  from assms obtain rs where
    tr: "traverse (summary_row df rule) (bin_groups df) = Inr rs"
    and s: "s = \<lparr>columns = [DELINEATING_COL, ''Bin'', rule_name rule], rows = rs\<rparr>"
    by (auto simp: rule_summary_def split: if_splits sum.splits)
  let ?h = "\<lambda>g. [(DELINEATING_COL, fst (fst g)), (''Bin'', snd (fst g)),
                  (rule_name rule, agg_value df rule (fst g))]"
  have "list_all2 (\<lambda>g y. y = ?h g) (bin_groups df) rs"
  proof (rule list.rel_mono_strong[OF traverse_Inr[OF tr]])
    fix g y assume g: "g \<in> set (bin_groups df)" and y: "summary_row df rule g = Inr y"
    from g have sg: "snd g = filter (\<lambda>r. bin_key r = fst g) (rows df)"
      by (auto simp: bin_groups_def)
    from y show "y = ?h g"
      by (auto simp: summary_row_def agg_value_def sg[symmetric] split: sum.splits)
  qed
  then have "rs = map ?h (bin_groups df)" by (rule list_all2_fun)
  then show ?thesis by (simp add: s summary_of_def bin_groups_def comp_def)
qed

lemma bin_key_Cons2:
  "bin_key ((DELINEATING_COL, x) # (''Bin'', y) # rest) = (x, y)"
  by (simp add: bin_key_def get_cell_def DELINEATING_COL_def)

lemma concat_singletons:
  "(\<And>k. k \<in> set ks \<Longrightarrow> F (h k) = [h' k]) \<Longrightarrow> concat (map F (map h ks)) = map h' ks"
  by (induction ks) auto

lemma filter_eq_distinct:
  "distinct ks \<Longrightarrow> k \<in> set ks \<Longrightarrow> filter (\<lambda>k'. k' = k) ks = [k]"
  by (induction ks) (auto simp: filter_empty_conv)

text \<open>The join of a frame that has one row per key with the summary of one more rule
  has one row per key again, each with one more value.\<close>

lemma merge_left_summary:
  assumes "merge_left out (summary_of df rule) = Inr out'"
    and "rows out = map (\<lambda>k. (DELINEATING_COL, fst k) # (''Bin'', snd k) # g k) (group_keys df)"
    and "tr = filter (\<lambda>c. c = rule_name rule) (columns out)"
  shows "rows out' =
           map (\<lambda>k. (DELINEATING_COL, fst k) # (''Bin'', snd k) #
                     rename_row (suffixed tr ''_x'') (g k) @
                     [(suffixed tr ''_y'' (rule_name rule), agg_value df rule k)])
             (group_keys df)"
    and "columns out' =
           map (suffixed tr ''_x'') (columns out) @ [suffixed tr ''_y'' (rule_name rule)]"
proof -
  let ?ks = "group_keys df"
  let ?n = "rule_name rule"
  let ?s = "summary_of df rule"
  define rcols where "rcols = filter (\<lambda>c. c \<notin> set merge_keys) (columns ?s)"
  define to_rename where "to_rename = filter (\<lambda>c. c \<in> set rcols) (columns out)"
  define rlabels where "rlabels = map (suffixed to_rename ''_y'') rcols"
  define F where "F = (\<lambda>l.
                     let l' = rename_row (suffixed to_rename ''_x'') l;
                         ms = filter (\<lambda>r. bin_key r = bin_key l) (rows ?s)
                     in if ms = [] then [l' @ map (\<lambda>c. (c, NaN)) rlabels]
                        else map (\<lambda>r. l' @ rename_row (suffixed to_rename ''_y'')
                                              (filter (\<lambda>(c, v). c \<notin> set merge_keys) r)) ms)"
  from assms(1) have uniq: "count_list (columns ?s) DELINEATING_COL = 1"
      "count_list (columns ?s) ''Bin'' = 1"
    by (auto simp: merge_left_def merge_keys_def split: if_splits)
  then have n: "?n \<noteq> DELINEATING_COL" "?n \<noteq> ''Bin''"
    by (auto simp: summary_of_def DELINEATING_COL_def split: if_splits)
  then have rcols: "rcols = [?n]"
    by (simp add: rcols_def summary_of_def merge_keys_def DELINEATING_COL_def)
  then have tr: "to_rename = tr" by (simp add: to_rename_def assms(3))
  have "merge_left out ?s =
          (if \<not> list_all (\<lambda>k. count_list (columns out) k = 1 \<and> count_list (columns ?s) k = 1)
                  merge_keys
           then Inl ValueError
           else if suffix_dups (columns out) (map (suffixed to_rename ''_x'') (columns out)) \<or>
                   suffix_dups rcols rlabels
           then Inl MergeError
           else Inr \<lparr>columns = map (suffixed to_rename ''_x'') (columns out) @ rlabels,
                     rows = concat (map F (rows out))\<rparr>)"
    by (simp only: merge_left_def F_def rlabels_def to_rename_def rcols_def Let_def)
  with assms(1) have rows': "rows out' = concat (map F (rows out))"
    and cols': "columns out' = map (suffixed to_rename ''_x'') (columns out) @ rlabels"
    by (auto split: if_splits)
  have keys_kept: "suffixed to_rename sfx DELINEATING_COL = DELINEATING_COL"
      "suffixed to_rename sfx ''Bin'' = ''Bin''" for sfx
    using n by (auto simp: suffixed_def to_rename_def rcols)
  define g' where "g' = (\<lambda>k. rename_row (suffixed to_rename ''_x'') (g k) @
                              [(suffixed to_rename ''_y'' ?n, agg_value df rule k)])"
  have F: "F ((DELINEATING_COL, fst k) # (''Bin'', snd k) # g k) =
             [(DELINEATING_COL, fst k) # (''Bin'', snd k) # g' k]" if k: "k \<in> set ?ks" for k
  proof -
    have "filter (\<lambda>r. bin_key r = k) (rows ?s) =
            map (\<lambda>k. [(DELINEATING_COL, fst k), (''Bin'', snd k), (?n, agg_value df rule k)])
              (filter (\<lambda>k'. k' = k) ?ks)"
      by (simp add: summary_of_def filter_map comp_def bin_key_Cons2)
    also have "\<dots> = [[(DELINEATING_COL, fst k), (''Bin'', snd k), (?n, agg_value df rule k)]]"
      by (simp add: filter_eq_distinct[OF group_keys_distinct k])
    finally show ?thesis using n
      by (simp add: F_def bin_key_Cons2 rename_row_def keys_kept g'_def merge_keys_def)
  qed
  have "rows out' = map (\<lambda>k. (DELINEATING_COL, fst k) # (''Bin'', snd k) # g' k) ?ks"
    unfolding rows' assms(2) using F by (rule concat_singletons)
  then show "rows out' =
           map (\<lambda>k. (DELINEATING_COL, fst k) # (''Bin'', snd k) #
                     rename_row (suffixed tr ''_x'') (g k) @
                     [(suffixed tr ''_y'' (rule_name rule), agg_value df rule k)])
             (group_keys df)"
    by (simp add: g'_def tr)
  show "columns out' =
           map (suffixed tr ''_x'') (columns out) @ [suffixed tr ''_y'' (rule_name rule)]"
    by (simp add: cols' rlabels_def rcols tr)
qed

lemma merge_left_keyed:
  assumes "merge_left out (summary_of df rule) = Inr out'"
    and "rows out = map (\<lambda>k. (DELINEATING_COL, fst k) # (''Bin'', snd k) # g k) (group_keys df)"
  shows "\<exists>g'. rows out' = map (\<lambda>k. (DELINEATING_COL, fst k) # (''Bin'', snd k) # g' k) (group_keys df) \<and>
              (\<forall>k. map snd (g' k) = map snd (g k) @ [agg_value df rule k])"
proof -
  define tr where "tr = filter (\<lambda>c. c = rule_name rule) (columns out)"
  let ?g' = "\<lambda>k. rename_row (suffixed tr ''_x'') (g k) @
                     [(suffixed tr ''_y'' (rule_name rule), agg_value df rule k)]"
  have "rows out' = map (\<lambda>k. (DELINEATING_COL, fst k) # (''Bin'', snd k) # ?g' k) (group_keys df)"
    by (rule merge_left_summary(1)[OF assms tr_def])
  moreover have "\<forall>k. map snd (?g' k) = map snd (g k) @ [agg_value df rule k]"
    by (simp add: rename_row_def comp_def case_prod_beta)
  ultimately show ?thesis by (intro exI[of _ ?g'] conjI)
qed

lemma merge_all_keyed:
  assumes "merge_all out (map (summary_of df) rules) = Inr out'"
    and "rows out = map (\<lambda>k. (DELINEATING_COL, fst k) # (''Bin'', snd k) # g k) (group_keys df)"
  shows "\<exists>g'. rows out' = map (\<lambda>k. (DELINEATING_COL, fst k) # (''Bin'', snd k) # g' k) (group_keys df) \<and>
              (\<forall>k. map snd (g' k) = map snd (g k) @ map (\<lambda>rule. agg_value df rule k) rules)"
  using assms
proof (induction rules arbitrary: out g)
  case Nil
  then show ?case by auto
next
  case (Cons rule rules)
  from Cons.prems(1) obtain mid where
    mid: "merge_left out (summary_of df rule) = Inr mid"
    and rest: "merge_all mid (map (summary_of df) rules) = Inr out'"
    by (auto split: sum.splits)
  from merge_left_keyed[OF mid Cons.prems(2)] obtain g1 where
    g1: "rows mid = map (\<lambda>k. (DELINEATING_COL, fst k) # (''Bin'', snd k) # g1 k) (group_keys df)"
    and v1: "\<forall>k. map snd (g1 k) = map snd (g k) @ [agg_value df rule k]"
    by blast
  from Cons.IH[OF rest g1] obtain g' where
    "rows out' = map (\<lambda>k. (DELINEATING_COL, fst k) # (''Bin'', snd k) # g' k) (group_keys df)"
    "\<forall>k. map snd (g' k) = map snd (g1 k) @ map (\<lambda>rule. agg_value df rule k) rules"
    by blast
  with v1 show ?case by (intro exI[of _ g']) simp
qed

lemma traverse_rule_summary:
  assumes "traverse (rule_summary df) sched = Inr summary"
  shows "summary = map (summary_of df) sched"
proof -
  have "list_all2 (\<lambda>rule s. s = summary_of df rule) sched summary"
    by (rule list_all2_mono[OF traverse_Inr[OF assms]]) (auto dest: rule_summary_Inr)
  then show ?thesis by (rule list_all2_fun)
qed

text \<open>With at least one rule, the result has one row per group key, in key order: the
  device, the bin under the label \<^verbatim>\<open>Time\<close>, and one value per rule in schedule order.\<close>

lemma summarise_rows:
  assumes "sched \<noteq> []" and "summarise sched df = Inr out"
  shows "\<exists>g. rows out = map (\<lambda>k. (DELINEATING_COL, fst k) # (''Time'', snd k) # g k) (group_keys df) \<and>
             (\<forall>k. map snd (g k) = map (\<lambda>rule. agg_value df rule k) sched)"
proof -
  from assms(2) obtain summary where tr: "traverse (rule_summary df) sched = Inr summary"
    by (auto simp: summarise_def split: sum.splits)
  from assms(1) obtain rule rules where sched: "sched = rule # rules" by (cases sched) auto
  from traverse_rule_summary[OF tr] have summary:
    "summary = summary_of df rule # map (summary_of df) rules" by (simp add: sched)
  from assms(2) tr summary obtain mid where
    mid: "merge_all (summary_of df rule) (map (summary_of df) rules) = Inr mid"
    and out: "out = rename_column ''Bin'' ''Time'' mid"
    by (auto simp: summarise_def split: sum.splits)
  have "rows (summary_of df rule) =
          map (\<lambda>k. (DELINEATING_COL, fst k) # (''Bin'', snd k) # [(rule_name rule, agg_value df rule k)])
            (group_keys df)"
    by (simp add: summary_of_def)
  from merge_all_keyed[OF mid this] obtain g where
    g: "rows mid = map (\<lambda>k. (DELINEATING_COL, fst k) # (''Bin'', snd k) # g k) (group_keys df)"
    and v: "\<forall>k. map snd (g k) = [agg_value df rule k] @ map (\<lambda>rule. agg_value df rule k) rules"
    by auto
  let ?g = "\<lambda>k. rename_row (\<lambda>c. if c = ''Bin'' then ''Time'' else c) (g k)"
  have "rows out = map (\<lambda>k. (DELINEATING_COL, fst k) # (''Time'', snd k) # ?g k) (group_keys df)"
    by (simp add: out rename_column_def g rename_row_def DELINEATING_COL_def)
  moreover have "\<forall>k. map snd (?g k) = map (\<lambda>rule. agg_value df rule k) sched"
    using v by (simp add: sched rename_row_def comp_def case_prod_beta)
  ultimately show ?thesis by (intro exI[of _ ?g] conjI)
qed

section \<open>One row per device and bin\<close>

lemma bin_key_rows_with_bins:
  "map bin_key (rows (with_bins p nanos df)) = map (input_key p nanos) (rows df)"
  by (simp add: rows_with_bins bin_key_with_bins input_key_def)

lemma filter_rows_with_bins:
  "filter (\<lambda>r. bin_key r = k) (rows (with_bins p nanos df)) =
     map (\<lambda>r. AList.update ''Bin''
                 (floor_cell nanos (to_datetime p (get_cell r TIME_COLUMN)))
                 (AList.update TIME_COLUMN (to_datetime p (get_cell r TIME_COLUMN)) r))
       (filter (\<lambda>r. input_key p nanos r = k) (rows df))"
  by (simp add: rows_with_bins filter_map comp_def bin_key_with_bins input_key_def)

lemma rule_columns_float:
  assumes "rule_summary df rule = Inr s" and "bin_groups df \<noteq> []"
  shows "list_all (\<lambda>c. c \<in> set (columns df)) (rule_columns rule)"
    and "list_all (float_column df) (rule_columns rule)"
proof -
  from assms(2) obtain g gs where g: "bin_groups df = g # gs" by (cases "bin_groups df") auto
  from assms(1) obtain v where
    "agg_func df (rule_columns rule) (rule_agg rule) (snd g) = Inr v"
    by (auto simp: rule_summary_def g summary_row_def split: if_splits sum.splits)
  then show "list_all (\<lambda>c. c \<in> set (columns df)) (rule_columns rule)"
    and "list_all (float_column df) (rule_columns rule)"
    by (auto simp: agg_func_def split: if_splits)
qed

lemma to_datetime_not_float: "\<not> is_float (to_datetime p c)"
  by (cases c) (auto simp: to_datetime_def split: option.splits)

lemma floor_cell_not_float: "\<not> is_float (floor_cell nanos c)"
  by (cases c) (auto simp: floor_cell_def)

lemma with_bins_not_float:
  assumes "rows df \<noteq> []"
  shows "\<not> float_column (with_bins p nanos df) TIME_COLUMN"
    and "\<not> float_column (with_bins p nanos df) ''Bin''"
proof -
  from assms obtain r rs where "rows df = r # rs" by (cases "rows df") auto
  then show "\<not> float_column (with_bins p nanos df) TIME_COLUMN"
    and "\<not> float_column (with_bins p nanos df) ''Bin''"
    by (simp_all add: float_column_def rows_with_bins get_cell_update to_datetime_not_float
        floor_cell_not_float TIME_COLUMN_def)
qed

text \<open>A rule that was summarised on a frame with a group reads neither the time column
  nor \<^verbatim>\<open>Bin\<close>, so it reads the cells of the Binner's input.\<close>

lemma rule_columns_plain:
  assumes "rule_summary (with_bins p nanos df) rule = Inr s"
    and "bin_groups (with_bins p nanos df) \<noteq> []"
    and "c \<in> set (rule_columns rule)"
  shows "c \<noteq> TIME_COLUMN \<and> c \<noteq> ''Bin''"
proof -
  from assms(2) have "rows df \<noteq> []"
    by (auto simp: bin_groups_def group_keys_def rows_with_bins)
  from with_bins_not_float[OF this, of p nanos] rule_columns_float(2)[OF assms(1,2)] assms(3)
  show ?thesis by (auto simp: list_all_iff)
qed


lemma traverse_nth:
  assumes "traverse f xs = Inr ys" and "j < length xs"
  shows "f (xs ! j) = Inr (ys ! j)"
  using traverse_Inr[OF assms(1)] assms(2) by (simp add: list_all2_conv_all_nth)

lemma summarise_rule_summary:
  assumes "summarise sched df = Inr out" and "j < length sched"
  shows "\<exists>s. rule_summary df (sched ! j) = Inr s"
proof -
  from assms(1) obtain summary where "traverse (rule_summary df) sched = Inr summary"
    by (auto simp: summarise_def split: sum.splits)
  from traverse_nth[OF this assms(2)] show ?thesis by blast
qed


lemma out_key_Cons2: "out_key ((DELINEATING_COL, x) # (''Time'', y) # rest) = (x, y)"
  by (simp add: out_key_def get_cell_def DELINEATING_COL_def)





section \<open>Binning what is binned\<close>

lemma floor_ts_aligned: "int nanos dvd t \<Longrightarrow> floor_ts nanos t = t"
  by (auto simp: floor_ts_def)

lemma input_key_aligned:
  assumes "get_cell x TIME_COLUMN = Ts t" and "int nanos dvd t"
  shows "input_key p nanos x = (get_cell x DELINEATING_COL, get_cell x TIME_COLUMN)"
  using assms by (simp add: input_key_def to_datetime_def floor_cell_def floor_ts_aligned)

lemma mean_single: "mean [v] = v"
  by (simp add: mean_def)

text \<open>
  C9. Take a table whose timestamps are all multiples of the interval, a rule of the
  schedule that reduces with \<^verbatim>\<open>mean\<close>, and a row with a device whose group (the rows with
  its device and its timestamp) holds exactly one value that is not missing in the
  rule's columns. When the Binner returns a table, that table has a row with this
  device and this timestamp, and the rule's value in it is that one value.
\<close>

theorem rebinning_single_values:
  assumes "snd (bin_data p sched df interval) = Inr out"
    and "re_search_digits interval = Some ds"
    and "nanos = int_of_digits ds * unit_ns (interval_unit interval)"
    and "\<forall>x\<in>set (rows df). \<exists>t. get_cell x TIME_COLUMN = Ts t \<and> int nanos dvd t"
    and "j < length sched"
    and "rule_agg (sched ! j) = ''mean''"
    and "r \<in> set (rows df)"
    and "\<not> isna (get_cell r DELINEATING_COL)"
    and "num_values (concat (map (\<lambda>x. map (get_cell x) (rule_columns (sched ! j)))
           (filter (\<lambda>x. get_cell x DELINEATING_COL = get_cell r DELINEATING_COL \<and>
                        get_cell x TIME_COLUMN = get_cell r TIME_COLUMN) (rows df)))) = [v]"
  shows "\<exists>w\<in>set (rows out).
           out_key w = (get_cell r DELINEATING_COL, get_cell r TIME_COLUMN) \<and>
           snd (w ! (j + 2)) = Num v"
proof -
  define df2 where "df2 = with_bins p nanos df"
  define k where "k = (get_cell r DELINEATING_COL, get_cell r TIME_COLUMN)"
  let ?rule = "sched ! j"
  let ?cols = "rule_columns ?rule"
  from assms(5) have ne: "sched \<noteq> []" by auto
  from assms(1) obtain ds' where "re_search_digits interval = Some ds'"
    and "summarise sched (with_bins p (int_of_digits ds' * unit_ns (interval_unit interval)) df) = Inr out"
    by (rule bin_data_Inr)
  with assms(2,3) have sum: "summarise sched df2 = Inr out" by (simp add: df2_def)
  have key: "input_key p nanos x = (get_cell x DELINEATING_COL, get_cell x TIME_COLUMN)"
    if "x \<in> set (rows df)" for x
    using assms(4) that input_key_aligned by blast
  from assms(4,7) obtain t where t: "get_cell r TIME_COLUMN = Ts t" by blast
  have "valid_key k" using assms(8) t by (simp add: valid_key_def k_def)
  moreover have "k \<in> input_key p nanos ` set (rows df)"
    using key[OF assms(7)] assms(7) by (auto simp: k_def intro!: image_eqI[of _ _ r])
  moreover have "set (map bin_key (rows df2)) = set (map (input_key p nanos) (rows df))"
    by (simp only: df2_def bin_key_rows_with_bins)
  ultimately have kin: "k \<in> set (group_keys df2)" by (simp add: group_keys_set)
  then have groups: "bin_groups df2 \<noteq> []" by (auto simp: bin_groups_def)
  from summarise_rows[OF ne sum] obtain g where
    rows: "rows out = map (\<lambda>k. (DELINEATING_COL, fst k) # (''Time'', snd k) # g k) (group_keys df2)"
    and vals: "\<forall>k. map snd (g k) = map (\<lambda>rule. agg_value df2 rule k) sched"
    by blast
  have len: "length (g k) = length sched"
    using arg_cong[OF vals[rule_format, of k], of length] by simp
  define w where "w = (DELINEATING_COL, fst k) # (''Time'', snd k) # g k"
  have oin: "w \<in> set (rows out)" using kin by (auto simp: rows w_def)
  have okey: "out_key w = k" by (simp add: w_def out_key_Cons2)
  have "snd (w ! (j + 2)) = map snd (g k) ! j" using assms(5) len by (simp add: w_def)
  also have "\<dots> = agg_value df2 ?rule k" using assms(5) by (simp add: vals)
  finally have v: "snd (w ! (j + 2)) = agg_value df2 ?rule k" .
  from summarise_rule_summary[OF sum assms(5)] obtain s where
    s: "rule_summary df2 ?rule = Inr s" by blast
  note fl = rule_columns_float[OF s groups]
  have plain: "c \<noteq> TIME_COLUMN \<and> c \<noteq> ''Bin''" if "c \<in> set ?cols" for c
    using rule_columns_plain[OF s[unfolded df2_def] groups[unfolded df2_def] that] .
  let ?upd = "\<lambda>r. AList.update ''Bin''
                 (floor_cell nanos (to_datetime p (get_cell r TIME_COLUMN)))
                 (AList.update TIME_COLUMN (to_datetime p (get_cell r TIME_COLUMN)) r)"
  have f1: "filter (\<lambda>x. input_key p nanos x = k) (rows df) =
            filter (\<lambda>x. get_cell x DELINEATING_COL = get_cell r DELINEATING_COL \<and>
                        get_cell x TIME_COLUMN = get_cell r TIME_COLUMN) (rows df)"
    by (rule filter_cong) (auto simp: key k_def)
  have f2: "map (\<lambda>x2. map (get_cell x2) ?cols) (map ?upd xs) = map (\<lambda>x. map (get_cell x) ?cols) xs"
    for xs
    using plain by (simp add: get_cell_update comp_def cong: map_cong)
  have "num_values (concat (map (\<lambda>x2. map (get_cell x2) ?cols)
          (filter (\<lambda>r. bin_key r = k) (rows df2)))) = [v]"
    unfolding df2_def filter_rows_with_bins f2 f1 by (rule assms(9))
  with fl assms(6) have "agg_func df2 ?cols (rule_agg ?rule) (filter (\<lambda>r. bin_key r = k) (rows df2)) = Inr (Num v)"
    by (simp add: agg_func_def mean_single)
  then have "agg_value df2 ?rule k = Num v" by (simp add: agg_value_def)
  with v okey oin show ?thesis by (auto simp: k_def)
qed


theorem rebinning_single_values_witness:
  "snd (bin_data (\<lambda>_. None) rebin_schedule binned_example ''15 minutes'') =
     Inr \<lparr>columns = [''Dataset'', ''Time'', ''Raw Score'', ''Temperature''],
          rows =
            [[(''Dataset'', Str ''A''), (''Time'', Ts 1704103200000000000),
              (''Raw Score'', Num 1), (''Temperature'', Num 20)],
             [(''Dataset'', Str ''A''), (''Time'', Ts 1704104100000000000),
              (''Raw Score'', Num (1 / 2)), (''Temperature'', Num 22)],
             [(''Dataset'', Str ''B''), (''Time'', Ts 1704103200000000000),
              (''Raw Score'', Num (- 1)), (''Temperature'', NaN)]]\<rparr> \<and>
   (\<exists>w\<in>set [[(''Dataset'', Str ''A''), (''Time'', Ts 1704103200000000000),
              (''Raw Score'', Num 1), (''Temperature'', Num 20)],
             [(''Dataset'', Str ''A''), (''Time'', Ts 1704104100000000000),
              (''Raw Score'', Num (1 / 2)), (''Temperature'', Num 22)],
             [(''Dataset'', Str ''B''), (''Time'', Ts 1704103200000000000),
              (''Raw Score'', Num (- 1)), (''Temperature'', NaN)]].
      out_key w = (Str ''A'', Ts 1704104100000000000) \<and> snd (w ! 2) = Num (1 / 2))"
  (is "?run \<and> ?same")
proof -
  have run: ?run by (simp add: model_defs binned_example_def rebin_schedule_def)
  have ds: "re_search_digits ''15 minutes'' = Some ''15''"
    by (simp add: re_search_digits_def is_digit_def)
  have nanos: "900000000000 = int_of_digits ''15'' * unit_ns (interval_unit ''15 minutes'')"
    by (simp add: int_of_digits_def digit_val_def interval_unit_def unit_ns_def)
  have aligned: "\<forall>x\<in>set (rows binned_example).
      \<exists>t. get_cell x TIME_COLUMN = Ts t \<and> int 900000000000 dvd t"
    by (simp add: binned_example_def get_cell_def TIME_COLUMN_def)
  have j: "0 < length rebin_schedule" by (simp add: rebin_schedule_def)
  have agg: "rule_agg (rebin_schedule ! 0) = ''mean''"
    by (simp add: rebin_schedule_def rule_agg_def)
  have r: "rows binned_example ! 1 \<in> set (rows binned_example)"
    by (simp add: binned_example_def)
  have dev: "\<not> isna (get_cell (rows binned_example ! 1) DELINEATING_COL)"
    by (simp add: binned_example_def get_cell_def DELINEATING_COL_def)
  have single: "num_values (concat (map (\<lambda>x. map (get_cell x) (rule_columns (rebin_schedule ! 0)))
           (filter (\<lambda>x. get_cell x DELINEATING_COL =
                          get_cell (rows binned_example ! 1) DELINEATING_COL \<and>
                        get_cell x TIME_COLUMN = get_cell (rows binned_example ! 1) TIME_COLUMN)
              (rows binned_example)))) = [1 / 2]"
    by (simp add: binned_example_def rebin_schedule_def rule_columns_def get_cell_def
        DELINEATING_COL_def TIME_COLUMN_def)
  from rebinning_single_values[OF run ds nanos aligned j agg r dev single]
  have ?same
    by (simp add: binned_example_def get_cell_def DELINEATING_COL_def TIME_COLUMN_def)
  with run show ?thesis by (rule conjI)
qed

section \<open>Two rules with one name\<close>

lemma suffix_not_key:
  "X @ ''_x'' \<noteq> ''Bin''" "X @ ''_x'' \<noteq> ''Dataset''"
  "X @ ''_y'' \<noteq> ''Bin''" "X @ ''_y'' \<noteq> ''Dataset''"
proof -
  have l: "last (X @ ''_x'') = CHR ''x''" "last (X @ ''_y'') = CHR ''y''" by simp_all
  show "X @ ''_x'' \<noteq> ''Bin''"
  proof
    assume "X @ ''_x'' = ''Bin''"
    then have "last (X @ ''_x'') = last ''Bin''" by (rule arg_cong)
    with l show False by simp
  qed
  show "X @ ''_x'' \<noteq> ''Dataset''"
  proof
    assume "X @ ''_x'' = ''Dataset''"
    then have "last (X @ ''_x'') = last ''Dataset''" by (rule arg_cong)
    with l show False by simp
  qed
  show "X @ ''_y'' \<noteq> ''Bin''"
  proof
    assume "X @ ''_y'' = ''Bin''"
    then have "last (X @ ''_y'') = last ''Bin''" by (rule arg_cong)
    with l show False by simp
  qed
  show "X @ ''_y'' \<noteq> ''Dataset''"
  proof
    assume "X @ ''_y'' = ''Dataset''"
    then have "last (X @ ''_y'') = last ''Dataset''" by (rule arg_cong)
    with l show False by simp
  qed
qed

lemma summarise_single:
  assumes "summarise [rule] df = Inr out"
  shows "rule_summary df rule = Inr (summary_of df rule)"
    and "out = rename_column ''Bin'' ''Time'' (summary_of df rule)"
proof -
  from assms obtain s where s: "rule_summary df rule = Inr s"
    by (auto simp: summarise_def split: sum.splits)
  with rule_summary_Inr[OF s] show "rule_summary df rule = Inr (summary_of df rule)" by simp
  with assms show "out = rename_column ''Bin'' ''Time'' (summary_of df rule)"
    by (simp add: summarise_def)
qed


lemma summary_of_columns: "columns (summary_of df rule) = [''Dataset'', ''Bin'', rule_name rule]"
  by (simp add: summary_of_def DELINEATING_COL_def)

lemma merge_left_same_name:
  assumes "rule_name r1 = X" "rule_name r2 = X" "X \<noteq> ''Dataset''" "X \<noteq> ''Bin''"
  shows "\<exists>mid. merge_left (summary_of df r1) (summary_of df r2) = Inr mid"
proof -
  have keys: "list_all (\<lambda>k. count_list [''Dataset'', ''Bin'', X] k = 1 \<and>
                            count_list [''Dataset'', ''Bin'', X] k = 1) merge_keys"
    using assms(3,4) by (simp add: merge_keys_def DELINEATING_COL_def)
  have rcols: "filter (\<lambda>c. c \<notin> set merge_keys) [''Dataset'', ''Bin'', X] = [X]"
    using assms(3,4) by (simp add: merge_keys_def DELINEATING_COL_def)
  have tr: "filter (\<lambda>c. c \<in> set [X]) [''Dataset'', ''Bin'', X] = [X]"
    using assms(3,4) by auto
  have d1: "\<not> suffix_dups [''Dataset'', ''Bin'', X]
              (map (suffixed [X] ''_x'') [''Dataset'', ''Bin'', X])"
    using assms(3,4) suffix_not_key[of X] by (simp add: suffix_dups_def suffixed_def)
  have d2: "\<not> suffix_dups [X] (map (suffixed [X] ''_y'') [X])"
    by (simp add: suffix_dups_def suffixed_def)
  show ?thesis
    unfolding merge_left_def summary_of_columns assms(1,2) Let_def rcols tr
    using keys d1 d2 by simp
qed


text \<open>
  C5, as the code has it. The schedule is not checked for repeated names. When two
  rules share the output name \<open>X\<close> (not one of the key labels) and each of them alone
  can be aggregated into a table with a row, the Binner with both rules raises nothing:
  it returns the rows of the first rule's table with both values, the first under
  \<^verbatim>\<open>X_x\<close> and the second under \<^verbatim>\<open>X_y\<close>.
\<close>

theorem duplicate_names_are_suffixed:
  assumes "rule_name r1 = X" and "rule_name r2 = X"
    and "X \<noteq> ''Dataset''" and "X \<noteq> ''Bin''"
    and "snd (bin_data p [r1] df interval) = Inr o1"
    and "snd (bin_data p [r2] df interval) = Inr o2"
    and "rows o1 \<noteq> []"
  shows "\<exists>out. snd (bin_data p [r1, r2] df interval) = Inr out \<and>
           columns out = [''Dataset'', ''Time'', X @ ''_x'', X @ ''_y''] \<and>
           map out_key (rows out) = map out_key (rows o1) \<and>
           map (\<lambda>r. snd (r ! 2)) (rows out) = map (\<lambda>r. snd (r ! 2)) (rows o1) \<and>
           map (\<lambda>r. snd (r ! 3)) (rows out) = map (\<lambda>r. snd (r ! 2)) (rows o2)"
proof -
  from assms(5) obtain ds where ds: "re_search_digits interval = Some ds"
    and t: "TIME_COLUMN \<in> set (columns df)"
    and rng: "int_of_digits ds * unit_ns (interval_unit interval) < 2 ^ 63"
    by (rule bin_data_Inr)
  define df2 where "df2 = with_bins p (int_of_digits ds * unit_ns (interval_unit interval)) df"
  note acc = bin_data_accepted[OF ds rng t, of p, folded df2_def]
  from assms(5,6) have sum1: "summarise [r1] df2 = Inr o1" and sum2: "summarise [r2] df2 = Inr o2"
    by (simp_all add: acc)
  let ?s1 = "summary_of df2 r1" and ?s2 = "summary_of df2 r2"
  let ?ks = "group_keys df2"
  let ?ren = "\<lambda>c. if c = ''Bin'' then ''Time'' else c"
  note a1 = summarise_single[OF sum1] and a2 = summarise_single[OF sum2]
  from merge_left_same_name[OF assms(1-4), of df2] obtain mid where
    mid: "merge_left ?s1 ?s2 = Inr mid" by blast
  have out: "snd (bin_data p [r1, r2] df interval) = Inr (rename_column ''Bin'' ''Time'' mid)"
    by (simp add: acc summarise_def a1(1) a2(1) mid)
  have rows1: "rows ?s1 = map (\<lambda>k. (DELINEATING_COL, fst k) # (''Bin'', snd k) #
                                [(X, agg_value df2 r1 k)]) ?ks"
    by (simp add: summary_of_def assms(1))
  have tr: "[X] = filter (\<lambda>c. c = rule_name r2) (columns ?s1)"
    using assms(1-4) by (auto simp: summary_of_columns)
  note m = merge_left_summary[OF mid rows1 tr]
  have cols: "columns (rename_column ''Bin'' ''Time'' mid) =
                [''Dataset'', ''Time'', X @ ''_x'', X @ ''_y'']"
    using assms(1-4) suffix_not_key[of X]
    by (simp add: rename_column_def m(2) summary_of_columns suffixed_def)
  have rows_out: "rows (rename_column ''Bin'' ''Time'' mid) =
          map (\<lambda>k. [(DELINEATING_COL, fst k), (''Time'', snd k),
                     (X @ ''_x'', agg_value df2 r1 k), (X @ ''_y'', agg_value df2 r2 k)]) ?ks"
    using assms(1-4) suffix_not_key[of X]
    by (simp add: rename_column_def m(1) rename_row_def suffixed_def DELINEATING_COL_def)
  have rows_o1: "rows o1 = map (\<lambda>k. [(DELINEATING_COL, fst k), (''Time'', snd k),
                                      (?ren X, agg_value df2 r1 k)]) ?ks"
    by (simp add: a1(2) rename_column_def summary_of_def rename_row_def assms(1)
        DELINEATING_COL_def)
  have rows_o2: "rows o2 = map (\<lambda>k. [(DELINEATING_COL, fst k), (''Time'', snd k),
                                      (?ren X, agg_value df2 r2 k)]) ?ks"
    by (simp add: a2(2) rename_column_def summary_of_def rename_row_def assms(2)
        DELINEATING_COL_def)
  have k: "map out_key (rows (rename_column ''Bin'' ''Time'' mid)) = map out_key (rows o1)"
    unfolding rows_out rows_o1 by (simp add: out_key_Cons2)
  have v1: "map (\<lambda>r. snd (r ! 2)) (rows (rename_column ''Bin'' ''Time'' mid)) =
            map (\<lambda>r. snd (r ! 2)) (rows o1)"
    unfolding rows_out rows_o1 by simp
  have v2: "map (\<lambda>r. snd (r ! 3)) (rows (rename_column ''Bin'' ''Time'' mid)) =
            map (\<lambda>r. snd (r ! 2)) (rows o2)"
    unfolding rows_out rows_o2 by simp
  from out cols k v1 v2 show ?thesis
    by (intro exI[of _ "rename_column ''Bin'' ''Time'' mid"] conjI)
qed


theorem duplicate_names_are_suffixed_witness:
  "\<exists>out. snd (bin_data (\<lambda>_. None) [score_mean, score_sum] long_example ''15 minutes'') = Inr out \<and>
     columns out = [''Dataset'', ''Time'', ''Score_x'', ''Score_y''] \<and>
     map (\<lambda>r. snd (r ! 2)) (rows out) = [Num 1, Num (1 / 2), Num (- 1)] \<and>
     map (\<lambda>r. snd (r ! 3)) (rows out) = [Num 1, Num 1, Num (- 1)]"
proof -
  let ?o1 = "\<lparr>columns = [''Dataset'', ''Time'', ''Score''],
              rows = [[(''Dataset'', Str ''A''), (''Time'', Ts 1704103200000000000),
                       (''Score'', Num 1)],
                      [(''Dataset'', Str ''A''), (''Time'', Ts 1704104100000000000),
                       (''Score'', Num (1 / 2))],
                      [(''Dataset'', Str ''B''), (''Time'', Ts 1704103200000000000),
                       (''Score'', Num (- 1))]]\<rparr>"
  let ?o2 = "\<lparr>columns = [''Dataset'', ''Time'', ''Score''],
              rows = [[(''Dataset'', Str ''A''), (''Time'', Ts 1704103200000000000),
                       (''Score'', Num 1)],
                      [(''Dataset'', Str ''A''), (''Time'', Ts 1704104100000000000),
                       (''Score'', Num 1)],
                      [(''Dataset'', Str ''B''), (''Time'', Ts 1704103200000000000),
                       (''Score'', Num (- 1))]]\<rparr>"
  have n1: "rule_name score_mean = ''Score''" and n2: "rule_name score_sum = ''Score''"
    by (simp_all add: rule_name_def score_mean_def score_sum_def)
  have k1: "''Score'' \<noteq> ''Dataset''" and k2: "''Score'' \<noteq> ''Bin''" by simp_all
  have r1: "snd (bin_data (\<lambda>_. None) [score_mean] long_example ''15 minutes'') = Inr ?o1"
    by (simp add: model_defs long_example_def score_mean_def)
  have r2: "snd (bin_data (\<lambda>_. None) [score_sum] long_example ''15 minutes'') = Inr ?o2"
    by (simp add: model_defs long_example_def score_sum_def)
  have ne: "rows ?o1 \<noteq> []" by simp
  from duplicate_names_are_suffixed[OF n1 n2 k1 k2 r1 r2 ne] show ?thesis by auto
qed

text \<open>C5 as stated fails: with two rules named \<^verbatim>\<open>Score\<close> the Binner raises nothing and
  returns both columns under suffixed names.\<close>

theorem duplicate_names_counterexample:
  "snd (bin_data (\<lambda>_. None) [score_mean, score_sum] long_example ''15 minutes'') =
     Inr \<lparr>columns = [''Dataset'', ''Time'', ''Score_x'', ''Score_y''],
          rows =
            [[(''Dataset'', Str ''A''), (''Time'', Ts 1704103200000000000),
              (''Score_x'', Num 1), (''Score_y'', Num 1)],
             [(''Dataset'', Str ''A''), (''Time'', Ts 1704104100000000000),
              (''Score_x'', Num (1 / 2)), (''Score_y'', Num 1)],
             [(''Dataset'', Str ''B''), (''Time'', Ts 1704103200000000000),
              (''Score_x'', Num (- 1)), (''Score_y'', Num (- 1))]]\<rparr>"
  by (simp add: model_defs long_example_def score_mean_def score_sum_def)

section \<open>The Reshaper\<close>

lemma traverse_fun:
  assumes "traverse f xs = Inr ys"
    and "\<And>x y. x \<in> set xs \<Longrightarrow> f x = Inr y \<Longrightarrow> y = h x"
  shows "ys = map h xs"
proof -
  have "list_all2 (\<lambda>x y. y = h x) xs ys"
    by (rule list.rel_mono_strong[OF traverse_Inr[OF assms(1)]]) (rule assms(2))
  then show ?thesis by (rule list_all2_fun)
qed

lemma traverse_map_arg: "traverse f (map h xs) = traverse (\<lambda>x. f (h x)) xs"
  by (induction xs) (simp_all split: sum.splits)

lemma filter_disjoint_mset:
  assumes "k \<notin> set ks"
  shows "mset (filter (\<lambda>r. f r = k) xs) + mset (filter (\<lambda>r. f r \<in> set ks) xs) =
         mset (filter (\<lambda>r. f r \<in> set (k # ks)) xs)"
  using assms by (induction xs) auto

lemma groups_mset:
  "distinct ks \<Longrightarrow>
   mset (concat (map (\<lambda>k. filter (\<lambda>r. f r = k) xs) ks)) = mset (filter (\<lambda>r. f r \<in> set ks) xs)"
proof (induction ks)
  case Nil
  then show ?case by simp
next
  case (Cons k ks)
  then have "mset (concat (map (\<lambda>k. filter (\<lambda>r. f r = k) xs) (k # ks))) =
             mset (filter (\<lambda>r. f r = k) xs) + mset (filter (\<lambda>r. f r \<in> set ks) xs)"
    by simp
  also have "\<dots> = mset (filter (\<lambda>r. f r \<in> set (k # ks)) xs)"
    using Cons.prems by (intro filter_disjoint_mset) simp
  finally show ?case .
qed

lemma device_groups_fst:
  "g \<in> set (device_groups df) \<Longrightarrow> r \<in> set (snd g) \<Longrightarrow> get_cell r DELINEATING_COL = fst g"
  by (auto simp: device_groups_def)

lemma device_groups_mset:
  "mset (concat (map snd (device_groups df))) =
   mset (filter (\<lambda>r. \<not> isna (get_cell r DELINEATING_COL)) (rows df))"
proof -
  let ?f = "\<lambda>r. get_cell r DELINEATING_COL"
  let ?ks = "sort_key cell_key (remdups (filter (\<lambda>c. \<not> isna c) (map ?f (rows df))))"
  have d: "distinct ?ks" by simp
  have "map snd (device_groups df) = map (\<lambda>k. filter (\<lambda>r. ?f r = k) (rows df)) ?ks"
    by (simp add: device_groups_def comp_def)
  then have "mset (concat (map snd (device_groups df))) =
             mset (filter (\<lambda>r. ?f r \<in> set ?ks) (rows df))"
    using groups_mset[OF d, of ?f "rows df"] by simp
  also have "filter (\<lambda>r. ?f r \<in> set ?ks) (rows df) = filter (\<lambda>r. \<not> isna (?f r)) (rows df)"
    by (rule filter_cong) auto
  finally show ?thesis .
qed

lemma mset_concat_map_cong:
  "mset xs = mset ys \<Longrightarrow> mset (concat (map f xs)) = mset (concat (map f ys))"
proof -
  assume a: "mset xs = mset ys"
  have "mset (concat (map f zs)) = (\<Sum>x\<in>#mset zs. mset (f x))" for zs
    by (induction zs) auto
  with a show ?thesis by simp
qed

lemma act_name_not_time: "act_name i \<noteq> TIME_COLUMN"
  by (simp add: act_name_def TIME_COLUMN_def)

lemma new_row_coerced:
  assumes "TIME_COLUMN \<in> set (columns df)"
    and "new_row (coerce_time p df) d
           (AList.update TIME_COLUMN (to_datetime p (get_cell r TIME_COLUMN)) r) i = Inr y"
    and "d = get_cell r DELINEATING_COL"
  shows "y = derived_row p df r i"
  using assms act_name_not_time[of i]
  by (auto simp: new_row_def derived_row_def row_get_def coerce_time_columns get_cell_update
      TIME_COLUMN_def DELINEATING_COL_def split: if_splits)


lemma melt_Inr:
  assumes "snd (melt_activity_data p df) = Inr out"
  obtains rss where "TIME_COLUMN \<in> set (columns df)"
    and "traverse (expand_group (coerce_time p df) (length (filter is_act_col (columns df))))
           (device_groups (coerce_time p df)) = Inr rss"
    and "out = \<lparr>columns = melted_columns,
                 rows = sort_key melt_key (filter (\<lambda>r. \<not> isna (get_cell r ''Act'')) (concat rss))\<rparr>"
  using assms
  by (auto simp: melt_activity_data_def Let_def split: if_splits sum.splits)

lemma concat_map_concat:
  "concat (map f (concat xss)) = concat (map (\<lambda>xs. concat (map f xs)) xss)"
  by (induction xss) auto

lemma cell_key_inj:
  "\<not> isna a \<Longrightarrow> \<not> isna b \<Longrightarrow> cell_key a = cell_key b \<Longrightarrow> a = b"
  by (cases a; cases b) (auto simp: cell_key_def)

lemma get_cell_derived_row:
  "get_cell (derived_row p df r i) DELINEATING_COL = get_cell r DELINEATING_COL"
  "get_cell (derived_row p df r i) ''Act'' = get_cell r (act_name i)"
  "get_cell (derived_row p df r i) ''Time'' =
     minus_minutes (to_datetime p (get_cell r TIME_COLUMN)) i"
  by (simp_all add: derived_row_def get_cell_def DELINEATING_COL_def)

text \<open>What a successful run of the Reshaper returns, as a list: the derived rows of
  the grouped input, filtered and sorted.\<close>

lemma melt_rows:
  assumes "snd (melt_activity_data p df) = Inr out"
  shows "\<exists>xs. mset xs = mset (filter (\<lambda>r. \<not> isna (get_cell r DELINEATING_COL)) (rows df)) \<and>
          rows out = sort_key melt_key
            (concat (map (\<lambda>r. map (derived_row p df r)
                          (filter (\<lambda>i. \<not> isna (get_cell r (act_name i)))
                             [0..<length (filter is_act_col (columns df))])) xs))"
proof -
  define K where "K = length (filter is_act_col (columns df))"
  define df1 where "df1 = coerce_time p df"
  let ?upd = "\<lambda>r. AList.update TIME_COLUMN (to_datetime p (get_cell r TIME_COLUMN)) r"
  let ?D = "\<lambda>r. get_cell r DELINEATING_COL"
  from assms obtain rss where t: "TIME_COLUMN \<in> set (columns df)"
    and tr: "traverse (expand_group df1 K) (device_groups df1) = Inr rss"
    and out: "out = \<lparr>columns = melted_columns,
                 rows = sort_key melt_key (filter (\<lambda>r. \<not> isna (get_cell r ''Act'')) (concat rss))\<rparr>"
    unfolding K_def df1_def by (rule melt_Inr)
  have rows1: "rows df1 = map ?upd (rows df)" by (simp add: df1_def coerce_time_rows)
  have Dupd: "?D (?upd r) = ?D r" for r
    by (simp add: get_cell_update DELINEATING_COL_def TIME_COLUMN_def)
  \<comment> \<open>the rows of the groups, as rows of the input\<close>
  define ys where "ys = filter (\<lambda>r. \<not> isna (?D r)) (rows df)"
  have groups: "device_groups df1 =
      map (\<lambda>k. (k, map ?upd (filter (\<lambda>r. ?D r = k) (rows df))))
        (sort_key cell_key (remdups (filter (\<lambda>c. \<not> isna c) (map ?D (rows df)))))"
    by (simp add: device_groups_def rows1 filter_map comp_def Dupd)
  define ks where "ks = sort_key cell_key (remdups (filter (\<lambda>c. \<not> isna c) (map ?D (rows df))))"
  define xs where "xs = concat (map (\<lambda>k. filter (\<lambda>r. ?D r = k) (rows df)) ks)"
  have dks: "distinct ks" by (simp add: ks_def)
  have "mset xs = mset (filter (\<lambda>r. ?D r \<in> set ks) (rows df))"
    unfolding xs_def by (rule groups_mset[OF dks])
  also have "filter (\<lambda>r. ?D r \<in> set ks) (rows df) = filter (\<lambda>r. \<not> isna (?D r)) (rows df)"
    by (rule filter_cong) (auto simp: ks_def)
  finally have mxs: "mset xs = mset (filter (\<lambda>r. \<not> isna (?D r)) (rows df))" .
  \<comment> \<open>each group expands to the derived rows of its rows\<close>
  have grp: "y = concat (map (\<lambda>r. map (derived_row p df r) [0..<K]) (filter (\<lambda>r. ?D r = fst g) (rows df)))"
    if g: "g \<in> set (device_groups df1)" and y: "expand_group df1 K g = Inr y" for g y
  proof -
    from g have sg: "snd g = map ?upd (filter (\<lambda>r. ?D r = fst g) (rows df))"
      by (auto simp: groups)
    from y obtain yss where yss: "traverse (expand_row df1 K (fst g)) (snd g) = Inr yss"
      and yc: "y = concat yss"
      by (auto simp: expand_group_def split: sum.splits)
    have "traverse (\<lambda>r. expand_row df1 K (fst g) (?upd r)) (filter (\<lambda>r. ?D r = fst g) (rows df)) = Inr yss"
      using yss unfolding sg by (simp add: traverse_map_arg)
    then have "yss = map (\<lambda>r. map (derived_row p df r) [0..<K]) (filter (\<lambda>r. ?D r = fst g) (rows df))"
    proof (rule traverse_fun)
      fix r zs
      assume r: "r \<in> set (filter (\<lambda>r. ?D r = fst g) (rows df))"
        and zs: "expand_row df1 K (fst g) (?upd r) = Inr zs"
      from zs have "traverse (new_row df1 (fst g) (?upd r)) [0..<K] = Inr zs"
        by (simp add: expand_row_def)
      then show "zs = map (derived_row p df r) [0..<K]"
      proof (rule traverse_fun)
        fix i z assume "new_row df1 (fst g) (?upd r) i = Inr z"
        then show "z = derived_row p df r i"
          unfolding df1_def using r by (intro new_row_coerced[OF t]) auto
      qed
    qed
    with yc show ?thesis by simp
  qed
  have "rss = map (\<lambda>g. concat (map (\<lambda>r. map (derived_row p df r) [0..<K])
                 (filter (\<lambda>r. ?D r = fst g) (rows df)))) (device_groups df1)"
    using tr by (rule traverse_fun) (rule grp)
  then have "concat rss = concat (map (\<lambda>r. map (derived_row p df r) [0..<K]) xs)"
    by (simp add: groups ks_def[symmetric] comp_def xs_def concat_map_concat)
  then have "filter (\<lambda>r. \<not> isna (get_cell r ''Act'')) (concat rss) =
      concat (map (\<lambda>r. map (derived_row p df r)
                          (filter (\<lambda>i. \<not> isna (get_cell r (act_name i))) [0..<K])) xs)"
    by (simp add: filter_concat comp_def filter_map get_cell_derived_row)
  with out have "rows out = sort_key melt_key
            (concat (map (\<lambda>r. map (derived_row p df r)
                          (filter (\<lambda>i. \<not> isna (get_cell r (act_name i))) [0..<K])) xs))"
    by simp
  with mxs show ?thesis unfolding K_def by blast
qed


lemma prod_le_fst: "(a::'a::linorder, b::'b::linorder) \<le> (c, d) \<Longrightarrow> a \<le> c"
  by (auto simp: less_eq_prod_def)

text \<open>
  C1. When the Reshaper returns a table, its rows are, up to order, exactly the derived
  rows of the rows of its input that have a device: for each such row and each slot
  \<open>i\<close> below the number of activity columns whose sample is not missing, one row with
  the row's device, its coerced time less \<open>i\<close> minutes and the sample of slot \<open>i\<close>. The
  table is sorted by device and then by time, and the rows of one device are
  contiguous: between two rows of a device there is no row of another.
\<close>

theorem reshaper_emits_sorted_slots:
  assumes "snd (melt_activity_data p df) = Inr out"
  shows "mset (rows out) =
           mset (concat (map (\<lambda>r. map (derived_row p df r)
                    (filter (\<lambda>i. \<not> isna (get_cell r (act_name i)))
                       [0..<length (filter is_act_col (columns df))]))
                  (filter (\<lambda>r. \<not> isna (get_cell r DELINEATING_COL)) (rows df)))) \<and>
         sorted (map melt_key (rows out)) \<and>
         (\<forall>i j k. i \<le> j \<and> j \<le> k \<and> k < length (rows out) \<and>
                  get_cell (rows out ! i) DELINEATING_COL = get_cell (rows out ! k) DELINEATING_COL
            \<longrightarrow> get_cell (rows out ! j) DELINEATING_COL = get_cell (rows out ! i) DELINEATING_COL)"
proof -
  let ?D = "\<lambda>r. get_cell r DELINEATING_COL"
  let ?E = "\<lambda>r. map (derived_row p df r)
                    (filter (\<lambda>i. \<not> isna (get_cell r (act_name i)))
                       [0..<length (filter is_act_col (columns df))])"
  let ?ys = "filter (\<lambda>r. \<not> isna (?D r)) (rows df)"
  from melt_rows[OF assms] obtain xs where mxs: "mset xs = mset ?ys"
    and rows: "rows out = sort_key melt_key (concat (map ?E xs))"
    by blast
  have a: "mset (rows out) = mset (concat (map ?E ?ys))"
    unfolding rows using mset_concat_map_cong[OF mxs, of ?E] by simp
  have b: "sorted (map melt_key (rows out))"
    unfolding rows by (rule sorted_sort_key)
  have dev: "\<not> isna (?D r)" if "r \<in> set (rows out)" for r
  proof -
    from that have "r \<in> set (concat (map ?E xs))" by (simp add: rows)
    then obtain x i where x: "x \<in> set xs" and r: "r = derived_row p df x i" by auto
    from x have "x \<in># mset xs" by simp
    then have "x \<in># mset ?ys" by (simp only: mxs)
    then have "\<not> isna (?D x)" by simp
    then show ?thesis by (simp add: r get_cell_derived_row)
  qed
  have c: "\<forall>i j k. i \<le> j \<and> j \<le> k \<and> k < length (rows out) \<and> ?D (rows out ! i) = ?D (rows out ! k)
            \<longrightarrow> ?D (rows out ! j) = ?D (rows out ! i)"
  proof (intro allI impI, elim conjE)
    fix i j k
    assume ij: "i \<le> j" and jk: "j \<le> k" and k: "k < length (rows out)"
      and same: "?D (rows out ! i) = ?D (rows out ! k)"
    have "melt_key (rows out ! i) \<le> melt_key (rows out ! j)"
      using sorted_nth_mono[OF b, of i j] ij jk k by simp
    then have 1: "cell_key (?D (rows out ! i)) \<le> cell_key (?D (rows out ! j))"
      unfolding melt_key_def by (rule prod_le_fst)
    have "melt_key (rows out ! j) \<le> melt_key (rows out ! k)"
      using sorted_nth_mono[OF b, of j k] ij jk k by simp
    then have 2: "cell_key (?D (rows out ! j)) \<le> cell_key (?D (rows out ! k))"
      unfolding melt_key_def by (rule prod_le_fst)
    from 1 2 same have "cell_key (?D (rows out ! j)) = cell_key (?D (rows out ! i))" by simp
    moreover have "\<not> isna (?D (rows out ! j))" "\<not> isna (?D (rows out ! i))"
      using ij jk k by (simp_all add: dev)
    ultimately show "?D (rows out ! j) = ?D (rows out ! i)" by (rule cell_key_inj[rotated 2])
  qed
  from a b c show ?thesis by (intro conjI)
qed


theorem reshaper_emits_sorted_slots_witness:
  "snd (melt_activity_data parse_example wide_example) = Inr melted_example \<and>
   mset (rows melted_example) =
     mset (concat (map (\<lambda>r. map (derived_row parse_example wide_example r)
              (filter (\<lambda>i. \<not> isna (get_cell r (act_name i)))
                 [0..<length (filter is_act_col (columns wide_example))]))
            (filter (\<lambda>r. \<not> isna (get_cell r DELINEATING_COL)) (rows wide_example)))) \<and>
   sorted (map melt_key (rows melted_example)) \<and>
   get_cell (rows melted_example ! 2) DELINEATING_COL =
     get_cell (rows melted_example ! 0) DELINEATING_COL"
  (is "?run \<and> ?rows \<and> ?sorted \<and> ?same")
proof -
  have run: ?run by (simp add: melt_defs wide_example_def parse_example_def melted_example_def)
  note T = reshaper_emits_sorted_slots[OF run]
  from T have rows: ?rows by (rule conjunct1)
  from T have sorted: ?sorted by (rule conjunct1[OF conjunct2])
  from T have c: "\<forall>i j k. i \<le> j \<and> j \<le> k \<and> k < length (rows melted_example) \<and>
                  get_cell (rows melted_example ! i) DELINEATING_COL =
                    get_cell (rows melted_example ! k) DELINEATING_COL
            \<longrightarrow> get_cell (rows melted_example ! j) DELINEATING_COL =
                  get_cell (rows melted_example ! i) DELINEATING_COL"
    by (rule conjunct2[OF conjunct2])
  have hyp: "(0::nat) \<le> 2 \<and> (2::nat) \<le> 4 \<and> 4 < length (rows melted_example) \<and>
      get_cell (rows melted_example ! 0) DELINEATING_COL =
        get_cell (rows melted_example ! 4) DELINEATING_COL"
    by (simp add: melted_example_def get_cell_def DELINEATING_COL_def)
  from c[rule_format, OF hyp] have same: ?same .
  from run rows sorted same show ?thesis by (intro conjI)
qed

section \<open>Errors of the two stages\<close>















end
